theory Spec2Isabelle
  imports Complex_Main
begin

section \<open>JavaScript values used by the prayer-times countdown\<close>

text \<open>
  A JavaScript string is a sequence of UTF-16 code units; it is modelled as the list of
  those code units. \<open>str\<close> turns an ASCII literal into such a list. The two period
  markers of the 12-hour display are single code units: U+0635 (morning) and U+0645
  (evening).
\<close>

type_synonym jsstring = "nat list"

definition str :: "string \<Rightarrow> jsstring" where
  "str s = map of_char s"

definition AM :: jsstring where
  "AM = [1589]"

definition PM :: jsstring where
  "PM = [1605]"

text \<open>
  A JavaScript number is NaN, an infinity or a finite value. Finite values are kept as
  exact rationals: the rounding of doubles is not modelled (it is absent on every integer
  of magnitude below \<open>2^53\<close>, which covers all clock arithmetic below), and \<open>-0\<close> is
  identified with \<open>0\<close> (the code never divides by a computed value).
\<close>

datatype jsnum = NaN | PInf | NInf | Fin rat

datatype js_error = TypeError

fun js_neg :: "jsnum \<Rightarrow> jsnum" where
  "js_neg NaN = NaN"
| "js_neg PInf = NInf"
| "js_neg NInf = PInf"
| "js_neg (Fin a) = Fin (- a)"

fun js_add :: "jsnum \<Rightarrow> jsnum \<Rightarrow> jsnum" where
  "js_add NaN y = NaN"
| "js_add x NaN = NaN"
| "js_add PInf NInf = NaN"
| "js_add NInf PInf = NaN"
| "js_add PInf y = PInf"
| "js_add NInf y = NInf"
| "js_add x PInf = PInf"
| "js_add x NInf = NInf"
| "js_add (Fin a) (Fin b) = Fin (a + b)"

definition js_sub :: "jsnum \<Rightarrow> jsnum \<Rightarrow> jsnum" where
  "js_sub x y = js_add x (js_neg y)"

fun js_sgn :: "jsnum \<Rightarrow> int" where
  "js_sgn NaN = 0"
| "js_sgn PInf = 1"
| "js_sgn NInf = - 1"
| "js_sgn (Fin a) = (if a < 0 then - 1 else if a = 0 then 0 else 1)"

fun js_mul :: "jsnum \<Rightarrow> jsnum \<Rightarrow> jsnum" where
  "js_mul NaN y = NaN"
| "js_mul x NaN = NaN"
| "js_mul (Fin a) (Fin b) = Fin (a * b)"
| "js_mul x y =
     (let s = js_sgn x * js_sgn y
      in if s = 0 then NaN else if 0 < s then PInf else NInf)"

fun js_div :: "jsnum \<Rightarrow> jsnum \<Rightarrow> jsnum" where
  "js_div NaN y = NaN"
| "js_div x NaN = NaN"
| "js_div (Fin a) (Fin b) =
     (if b = 0 then (if a = 0 then NaN else if 0 < a then PInf else NInf) else Fin (a / b))"
| "js_div (Fin a) y = Fin 0"
| "js_div x (Fin b) =
     (let s = js_sgn x * (if b < 0 then - 1 else 1) in if 0 < s then PInf else NInf)"
| "js_div x y = NaN"

text \<open>The remainder operator \<open>%\<close> truncates the quotient towards zero.\<close>

definition trunc :: "rat \<Rightarrow> int" where
  "trunc q = (if 0 \<le> q then \<lfloor>q\<rfloor> else \<lceil>q\<rceil>)"

fun js_rem :: "jsnum \<Rightarrow> jsnum \<Rightarrow> jsnum" where
  "js_rem (Fin a) (Fin b) = (if b = 0 then NaN else Fin (a - b * of_int (trunc (a / b))))"
| "js_rem (Fin a) PInf = Fin a"
| "js_rem (Fin a) NInf = Fin a"
| "js_rem x y = NaN"

fun js_floor :: "jsnum \<Rightarrow> jsnum" where
  "js_floor (Fin a) = Fin (of_int \<lfloor>a\<rfloor>)"
| "js_floor x = x"

text \<open>Comparisons: every comparison with NaN is false.\<close>

fun js_lt :: "jsnum \<Rightarrow> jsnum \<Rightarrow> bool" where
  "js_lt NaN y = False"
| "js_lt x NaN = False"
| "js_lt (Fin a) (Fin b) = (a < b)"
| "js_lt NInf y = (y \<noteq> NInf)"
| "js_lt x PInf = (x \<noteq> PInf)"
| "js_lt x y = False"

definition js_gt :: "jsnum \<Rightarrow> jsnum \<Rightarrow> bool" where
  "js_gt x y = js_lt y x"

definition js_ge :: "jsnum \<Rightarrow> jsnum \<Rightarrow> bool" where
  "js_ge x y = (x \<noteq> NaN \<and> y \<noteq> NaN \<and> \<not> js_lt x y)"

definition js_le :: "jsnum \<Rightarrow> jsnum \<Rightarrow> bool" where
  "js_le x y = js_ge y x"

definition js_eq :: "jsnum \<Rightarrow> jsnum \<Rightarrow> bool" where
  "js_eq x y = (x \<noteq> NaN \<and> x = y)"

definition isNaN :: "jsnum \<Rightarrow> bool" where
  "isNaN x = (x = NaN)"

text \<open>Truthiness of a number (\<open>x || 12\<close>): zero and NaN are falsy.\<close>

definition truthy :: "jsnum \<Rightarrow> bool" where
  "truthy x = (x \<noteq> NaN \<and> x \<noteq> Fin 0)"

text \<open>An \<open>undefined\<close> operand of an arithmetic operator converts to NaN.\<close>

definition ToNumber :: "jsnum option \<Rightarrow> jsnum" where
  "ToNumber v = (case v of None \<Rightarrow> NaN | Some x \<Rightarrow> x)"

subsection \<open>Strings: split, padStart, digits\<close>

text \<open>
  \<open>s.split(sep)\<close> for a one-character separator always yields at least one piece; the
  result is the first piece and the list of the remaining ones.
\<close>

fun js_split :: "nat \<Rightarrow> jsstring \<Rightarrow> jsstring \<times> jsstring list" where
  "js_split sep [] = ([], [])"
| "js_split sep (c # cs) =
     (let (p, ps) = js_split sep cs
      in if c = sep then ([], p # ps) else (c # p, ps))"

definition second :: "'a \<times> 'a list \<Rightarrow> 'a option" where
  "second ps = (case snd ps of [] \<Rightarrow> None | x # _ \<Rightarrow> Some x)"

definition padStart :: "nat \<Rightarrow> nat \<Rightarrow> jsstring \<Rightarrow> jsstring" where
  "padStart n c s = replicate (n - length s) c @ s"

definition is_digit :: "nat \<Rightarrow> bool" where
  "is_digit c = (48 \<le> c \<and> c \<le> 57)"

definition is_ws :: "nat \<Rightarrow> bool" where
  "is_ws c = (c \<in> {9, 10, 11, 12, 13, 32, 160, 5760, 8232, 8233, 8239, 8287, 12288, 65279}
               \<or> (8192 \<le> c \<and> c \<le> 8202))"

definition js_trim :: "jsstring \<Rightarrow> jsstring" where
  "js_trim s = rev (dropWhile is_ws (rev (dropWhile is_ws s)))"

fun digits :: "nat \<Rightarrow> jsstring" where
  "digits n = (if n < 10 then [48 + n] else digits (n div 10) @ [48 + n mod 10])"

declare digits.simps [simp del]

definition dec_value :: "jsstring \<Rightarrow> nat" where
  "dec_value s = foldl (\<lambda>a c. 10 * a + (c - 48)) 0 s"

subsection \<open>Number.prototype.toString\<close>

text \<open>
  Integers print as their decimal digits, which is what JavaScript prints below
  \<open>10^21\<close>. For a finite non-integer the digits of the exact decimal expansion are
  produced, at most 17 after the point; JavaScript prints the shortest digits that read
  back as the same double. Only integers occur in the clock arithmetic.
\<close>

fun frac_digits :: "nat \<Rightarrow> rat \<Rightarrow> jsstring" where
  "frac_digits 0 r = []"
| "frac_digits (Suc k) r =
     (if r = 0 then []
      else (let d = nat \<lfloor>r * 10\<rfloor> in (48 + d) # frac_digits k (r * 10 - of_nat d)))"

definition unsigned_toString :: "rat \<Rightarrow> jsstring" where
  "unsigned_toString r =
     (let i = nat \<lfloor>r\<rfloor>; f = r - of_nat i
      in digits i @ (if f = 0 then [] else 46 # frac_digits 17 f))"

fun toString :: "jsnum \<Rightarrow> jsstring" where
  "toString NaN = str ''NaN''"
| "toString PInf = str ''Infinity''"
| "toString NInf = str ''-Infinity''"
| "toString (Fin r) = (if r < 0 then 45 # unsigned_toString (- r) else unsigned_toString r)"

subsection \<open>Number(string) and parseInt(string, 10)\<close>

text \<open>
  \<open>Number\<close> follows the StringNumericLiteral grammar: surrounding white space is
  dropped, the empty string is 0, then either a binary, octal or hexadecimal integer with
  its prefix, or an optionally signed decimal literal (\<open>Infinity\<close>, digits with an
  optional fraction and exponent). Anything else is NaN.
\<close>

definition digit_val :: "nat \<Rightarrow> nat option" where
  "digit_val c =
     (if 48 \<le> c \<and> c \<le> 57 then Some (c - 48)
      else if 97 \<le> c \<and> c \<le> 102 then Some (c - 87)
      else if 65 \<le> c \<and> c \<le> 70 then Some (c - 55)
      else None)"

definition radix_value :: "nat \<Rightarrow> jsstring \<Rightarrow> jsnum" where
  "radix_value b ds =
     (if ds \<noteq> [] \<and> (\<forall>c \<in> set ds. case digit_val c of None \<Rightarrow> False | Some v \<Rightarrow> v < b)
      then Fin (of_nat (foldl (\<lambda>a c. b * a + (case digit_val c of None \<Rightarrow> 0 | Some v \<Rightarrow> v)) 0 ds))
      else NaN)"

definition all_digits :: "jsstring \<Rightarrow> int option" where
  "all_digits ds = (if ds \<noteq> [] \<and> (\<forall>c \<in> set ds. is_digit c) then Some (int (dec_value ds)) else None)"

definition exponent_part :: "jsstring \<Rightarrow> int option" where
  "exponent_part r =
     (case r of
        [] \<Rightarrow> Some 0
      | c # cs \<Rightarrow>
          if c = 101 \<or> c = 69 then
            (case cs of
               [] \<Rightarrow> None
             | d # ds \<Rightarrow>
                 if d = 43 then all_digits ds
                 else if d = 45 then map_option uminus (all_digits ds)
                 else all_digits cs)
          else None)"

definition pow10 :: "int \<Rightarrow> rat" where
  "pow10 e = (if 0 \<le> e then 10 ^ nat e else 1 / 10 ^ nat (- e))"

definition unsigned_decimal :: "jsstring \<Rightarrow> jsnum" where
  "unsigned_decimal t =
     (if t = str ''Infinity'' then PInf
      else
        (let ip = takeWhile is_digit t;
             r1 = dropWhile is_digit t;
             (fp, r2) = (case r1 of
                           [] \<Rightarrow> ([], [])
                         | c # cs \<Rightarrow>
                             if c = 46 then (takeWhile is_digit cs, dropWhile is_digit cs)
                             else ([], r1))
         in if ip = [] \<and> fp = [] then NaN
            else (case exponent_part r2 of
                    None \<Rightarrow> NaN
                  | Some e \<Rightarrow>
                      Fin ((of_nat (dec_value ip) + of_nat (dec_value fp) / 10 ^ length fp)
                           * pow10 e))))"

definition Number :: "jsstring \<Rightarrow> jsnum" where
  "Number s =
     (case js_trim s of
        [] \<Rightarrow> Fin 0
      | c # cs \<Rightarrow>
          if c = 48 \<and> cs \<noteq> [] \<and> hd cs \<in> {98, 66} then radix_value 2 (tl cs)
          else if c = 48 \<and> cs \<noteq> [] \<and> hd cs \<in> {111, 79} then radix_value 8 (tl cs)
          else if c = 48 \<and> cs \<noteq> [] \<and> hd cs \<in> {120, 88} then radix_value 16 (tl cs)
          else if c = 43 then unsigned_decimal cs
          else if c = 45 then js_neg (unsigned_decimal cs)
          else unsigned_decimal (c # cs))"

text \<open>
  \<open>parseInt(s, 10)\<close>: leading white space and one sign are dropped, then the longest
  run of decimal digits is read; no digit at all gives NaN. An \<open>undefined\<close> argument
  is first turned into the string "undefined", hence NaN.
\<close>

definition parseInt :: "jsstring \<Rightarrow> jsnum" where
  "parseInt s =
     (let t = dropWhile is_ws s;
          neg = (t \<noteq> [] \<and> hd t = 45);
          u = (if t \<noteq> [] \<and> (hd t = 43 \<or> hd t = 45) then tl t else t);
          z = takeWhile is_digit u
      in if z = [] then NaN
         else if neg then Fin (- of_nat (dec_value z)) else Fin (of_nat (dec_value z)))"

definition parseInt_opt :: "jsstring option \<Rightarrow> jsnum" where
  "parseInt_opt v = (case v of None \<Rightarrow> parseInt (str ''undefined'') | Some s \<Rightarrow> parseInt s)"

section \<open>Time formatting\<close>

text \<open>
  The repository holds the application twice: as one script (an unnamed source file, called
  the single-file script here) and as modules (\<open>app\<close>, \<open>ui\<close>, \<open>utils\<close>, \<open>api\<close>,
  \<open>storage\<close>). \<open>formatTime\<close> and \<open>formatTimeRemaining\<close> are the same in both (utils
  module, and lines 293 and 391 of the script).

  \<open>formatTime(time24)\<close>: \<open>time24.split(':').map(Number)\<close>, destructured into hours and
  minutes. A string without a colon leaves \<open>minutes\<close> undefined, and
  \<open>minutes.toString()\<close> then throws a TypeError.
\<close>

definition formatTime :: "jsstring \<Rightarrow> js_error + jsstring" where
  "formatTime time24 =
     (let parts = js_split 58 time24;
          hours = Number (fst parts);
          minutes = map_option Number (second parts);
          period = (if js_ge hours (Fin 12) then PM else AM);
          hours12 = (let r = js_rem hours (Fin 12) in if truthy r then r else Fin 12)
      in case minutes of
           None \<Rightarrow> Inl TypeError
         | Some m \<Rightarrow> Inr (toString hours12 @ [58] @ padStart 2 48 (toString m) @ [32] @ period))"

definition formatTimeRemaining :: "jsnum \<Rightarrow> jsstring" where
  "formatTimeRemaining seconds =
     (let hours = js_floor (js_div seconds (Fin 3600));
          minutes = js_floor (js_div (js_rem seconds (Fin 3600)) (Fin 60));
          secs = js_rem seconds (Fin 60)
      in padStart 2 48 (toString hours) @ [58] @ padStart 2 48 (toString minutes) @ [58]
         @ padStart 2 48 (toString secs))"

text \<open>
  The prayer-time service sends a time of day as a 24-hour \<open>HH:MM\<close> string, both
  fields zero-padded; \<open>time24 h m\<close> is that string.
\<close>

definition time24 :: "nat \<Rightarrow> nat \<Rightarrow> jsstring" where
  "time24 h m = padStart 2 48 (digits h) @ [58] @ padStart 2 48 (digits m)"

section \<open>Application state\<close>

text \<open>
  The module-level variables (\<open>prayerTimes\<close>, \<open>nextPrayer\<close>, \<open>countdownInterval\<close>,
  \<open>isAudioEnabled\<close>), the two pieces of the page the countdown core writes (the text of
  the countdown element and the cards carrying the class \<open>active\<close>), and the browser's
  timer table. \<open>nextPrayer\<close> holds the \<open>name\<close> field of the source's object; its
  \<open>displayName\<close> is a function of the name and is left out. Timer handles come from one
  counter shared by \<open>setInterval\<close> and \<open>setTimeout\<close>. \<open>events\<close> records, in order, the
  calls of the countdown tick, of \<open>athanAudio.play()\<close> and of the timer functions.
\<close>

record clock =
  getHours :: nat
  getMinutes :: nat
  getSeconds :: nat

datatype callback = UpdateCountdown | UpdateDateTime

datatype timer = Interval callback nat | Timeout callback nat

datatype event = Tick | PlayAthan | ClearInterval nat | SetInterval nat | SetTimeout nat

record state =
  prayerTimes :: "jsstring \<Rightarrow> jsstring option"
  nextPrayer :: "jsstring option"
  countdownInterval :: "nat option"
  isAudioEnabled :: bool
  countdown :: jsstring
  active :: "jsstring list"
  timers :: "(nat \<times> timer) list"
  next_handle :: nat
  events :: "event list"

definition setInterval :: "callback \<Rightarrow> nat \<Rightarrow> state \<Rightarrow> nat \<times> state" where
  "setInterval cb ms st =
     (let h = next_handle st
      in (h, st\<lparr>timers := timers st @ [(h, Interval cb ms)], next_handle := Suc h,
                events := events st @ [SetInterval h]\<rparr>))"

definition setTimeout :: "callback \<Rightarrow> nat \<Rightarrow> state \<Rightarrow> nat \<times> state" where
  "setTimeout cb ms st =
     (let h = next_handle st
      in (h, st\<lparr>timers := timers st @ [(h, Timeout cb ms)], next_handle := Suc h,
                events := events st @ [SetTimeout h]\<rparr>))"

definition clearInterval :: "nat \<Rightarrow> state \<Rightarrow> state" where
  "clearInterval h st =
     st\<lparr>timers := filter (\<lambda>t. fst t \<noteq> h) (timers st), events := events st @ [ClearInterval h]\<rparr>"

section \<open>Parsing a displayed prayer time\<close>

definition prayerOrder :: "jsstring list" where
  "prayerOrder = map str [''fajr'', ''sunrise'', ''dhuhr'', ''asr'', ''maghrib'', ''isha'']"

text \<open>
  Both \<open>updateNextPrayer\<close> and \<open>updateCountdown\<close> turn the parsed hour into 24-hour
  form with the same two statements, run one after the other.
\<close>

definition to24h :: "jsstring option \<Rightarrow> jsnum \<Rightarrow> jsnum" where
  "to24h period hours =
     (let hours1 = (if period = Some PM \<and> js_lt hours (Fin 12) then js_add hours (Fin 12)
                    else hours)
      in if period = Some AM \<and> js_eq hours1 (Fin 12) then Fin 0 else hours1)"

text \<open>
  The body of the scan loop of \<open>updateNextPrayer\<close> up to the conversion (ui module lines
  105 to 110, script lines 320 to 325): split the entry at the blank into time and period,
  split the time at the colon, \<open>map(Number)\<close>. \<open>prayerTimeInMinutes\<close> is line 112.
\<close>

definition parsePrayerTime :: "jsstring \<Rightarrow> jsnum \<times> jsnum option" where
  "parsePrayerTime entry =
     (let tp = js_split 32 entry;
          time = fst tp;
          period = second tp;
          hm = js_split 58 time;
          hours = Number (fst hm);
          minutes = map_option Number (second hm)
      in (to24h period hours, minutes))"

definition prayerTimeInMinutes :: "jsstring \<Rightarrow> jsnum" where
  "prayerTimeInMinutes entry =
     (let (hours, minutes) = parsePrayerTime entry
      in js_add (js_mul hours (Fin 60)) (ToNumber minutes))"

section \<open>The resolver: updateNextPrayer\<close>

text \<open>
  \<open>updateNextPrayer\<close> is lines 89 to 147 of the ui module and 304 to 367 of the script;
  the two differ only in their last step. \<open>findNext\<close> is the
  \<open>for (const prayer of prayerOrder)\<close> loop, where \<open>None\<close> is \<open>nextPrayerName = null\<close>;
  an entry is passed over when it is undefined or the empty string. \<open>nextPrayerName\<close>
  adds the default, \<open>currentPrayerName\<close> is the \<open>indexOf\<close> computation (an index outside
  the array reads as undefined).
\<close>

fun findNext :: "(jsstring \<Rightarrow> jsstring option) \<Rightarrow> nat \<Rightarrow> jsstring list \<Rightarrow> jsstring option" where
  "findNext pt currentTime [] = None"
| "findNext pt currentTime (prayer # rest) =
     (case pt prayer of
        None \<Rightarrow> findNext pt currentTime rest
      | Some entry \<Rightarrow>
          if entry = [] then findNext pt currentTime rest
          else if js_gt (prayerTimeInMinutes entry) (Fin (of_nat currentTime)) then Some prayer
          else findNext pt currentTime rest)"

fun indexOf :: "'a list \<Rightarrow> 'a \<Rightarrow> int" where
  "indexOf [] x = - 1"
| "indexOf (y # ys) x =
     (if y = x then 0 else (let i = indexOf ys x in if i < 0 then - 1 else i + 1))"

definition at_index :: "'a list \<Rightarrow> int \<Rightarrow> 'a option" where
  "at_index xs i = (if 0 \<le> i \<and> i < int (length xs) then Some (xs ! nat i) else None)"

definition nextPrayerName :: "(jsstring \<Rightarrow> jsstring option) \<Rightarrow> clock \<Rightarrow> jsstring" where
  "nextPrayerName pt now =
     (let currentTime = getHours now * 60 + getMinutes now
      in case findNext pt currentTime prayerOrder of
           None \<Rightarrow> str ''fajr''
         | Some p \<Rightarrow> if p = [] then str ''fajr'' else p)"

definition currentPrayerName :: "jsstring \<Rightarrow> jsstring option" where
  "currentPrayerName next =
     (let currentPrayerIndex = indexOf prayerOrder next
      in if currentPrayerIndex = 0 then Some (str ''isha'')
         else at_index prayerOrder (currentPrayerIndex - 1))"

text \<open>
  The highlight: every card loses the class \<open>active\<close>, then the element whose id is the
  current prayer's name gains it, if there is such an element. The page has one card per
  entry of \<open>prayerOrder\<close>.
\<close>

definition highlight :: "jsstring option \<Rightarrow> jsstring list" where
  "highlight current =
     (case current of
        None \<Rightarrow> []
      | Some c \<Rightarrow> if c \<in> set prayerOrder then [c] else [])"

section \<open>The countdown tick: updateCountdown\<close>

definition sentinel :: jsstring where
  "sentinel = str ''--:--:--''"

text \<open>
  \<open>updateCountdown\<close> is lines 166 to 205 of the ui module and 403 to 459 of the script.
  \<open>timeRemaining\<close> is the arithmetic of a tick, from the split of the entry to the
  next-day adjustment, the same in both. \<open>None\<close> is the early \<open>return false\<close> taken when
  \<open>parseInt\<close> gives NaN for the hour or the minute. The body runs inside
  \<open>try\<close>; with entries that are strings nothing in it throws.
\<close>

definition timeRemaining :: "jsstring \<Rightarrow> clock \<Rightarrow> jsnum option" where
  "timeRemaining prayerTimeStr now =
     (let currentTime = getHours now * 3600 + getMinutes now * 60 + getSeconds now;
          tp = js_split 32 prayerTimeStr;
          time = fst tp;
          period = second tp;
          hm = js_split 58 time;
          hours = parseInt (fst hm);
          minutes = parseInt_opt (second hm)
      in if isNaN hours \<or> isNaN minutes then None
         else
           (let hours24 = to24h period hours;
                prayerTimeInSeconds = js_add (js_mul hours24 (Fin 3600)) (js_mul minutes (Fin 60));
                remaining = js_sub prayerTimeInSeconds (Fin (of_nat currentTime))
            in Some (if js_lt remaining (Fin 0) then js_add remaining (Fin (24 * 3600))
                     else remaining)))"

text \<open>
  The tick of the ui module. It returns its success flag and writes the countdown text;
  on the early return it writes nothing.
\<close>

definition updateCountdown :: "state \<Rightarrow> clock \<Rightarrow> bool \<times> state" where
  "updateCountdown st0 now =
     (let st = st0\<lparr>events := events st0 @ [Tick]\<rparr>
      in case nextPrayer st of
           None \<Rightarrow> (False, st\<lparr>countdown := sentinel\<rparr>)
         | Some name \<Rightarrow>
             (case prayerTimes st name of
                None \<Rightarrow> (False, st\<lparr>countdown := sentinel\<rparr>)
              | Some prayerTimeStr \<Rightarrow>
                  if prayerTimeStr = [] then (False, st\<lparr>countdown := sentinel\<rparr>)
                  else (case timeRemaining prayerTimeStr now of
                          None \<Rightarrow> (False, st)
                        | Some r \<Rightarrow> (True, st\<lparr>countdown := formatTimeRemaining r\<rparr>))))"

text \<open>
  The tick of the single-file script: the same, followed by the check that plays the
  athan (lines 448 to 451). Its \<open>playAthan\<close> tests the audio flag once more before
  playing. (The \<open>playAthan\<close> of the ui module is called only from the audio toggle of
  the app module.)
\<close>

definition playAthan_script :: "state \<Rightarrow> state" where
  "playAthan_script st = (if isAudioEnabled st then st\<lparr>events := events st @ [PlayAthan]\<rparr> else st)"

definition updateCountdown_script :: "state \<Rightarrow> clock \<Rightarrow> bool \<times> state" where
  "updateCountdown_script st0 now =
     (let st = st0\<lparr>events := events st0 @ [Tick]\<rparr>
      in case nextPrayer st of
           None \<Rightarrow> (False, st\<lparr>countdown := sentinel\<rparr>)
         | Some name \<Rightarrow>
             (case prayerTimes st name of
                None \<Rightarrow> (False, st\<lparr>countdown := sentinel\<rparr>)
              | Some prayerTimeStr \<Rightarrow>
                  if prayerTimeStr = [] then (False, st\<lparr>countdown := sentinel\<rparr>)
                  else (case timeRemaining prayerTimeStr now of
                          None \<Rightarrow> (False, st)
                        | Some r \<Rightarrow>
                            (let st1 = st\<lparr>countdown := formatTimeRemaining r\<rparr>
                             in if js_le r (Fin 60) \<and> js_gt r (Fin 0) \<and> isAudioEnabled st1
                                then (True, playAthan_script st1)
                                else (True, st1)))))"

section \<open>Starting and stopping the ticker\<close>

text \<open>
  \<open>startCountdown\<close> (ui module lines 153 to 160, script lines 466 to 476) has the same
  text in both files and calls the tick of its own file. A handle is truthy when it is not
  null and not 0.
\<close>

definition startCountdown_with ::
  "(state \<Rightarrow> clock \<Rightarrow> bool \<times> state) \<Rightarrow> state \<Rightarrow> clock \<Rightarrow> state" where
  "startCountdown_with tick st now =
     (let st1 = (case countdownInterval st of
                   None \<Rightarrow> st
                 | Some h \<Rightarrow> if h \<noteq> 0 then clearInterval h st else st);
          st2 = snd (tick st1 now);
          (h, st3) = setInterval UpdateCountdown 1000 st2
      in st3\<lparr>countdownInterval := Some h\<rparr>)"

definition startCountdown :: "state \<Rightarrow> clock \<Rightarrow> state" where
  "startCountdown = startCountdown_with updateCountdown"

definition startCountdown_script :: "state \<Rightarrow> clock \<Rightarrow> state" where
  "startCountdown_script = startCountdown_with updateCountdown_script"

text \<open>The timer part of \<open>cleanupUI\<close> (ui module lines 43 to 47).\<close>

definition cleanupUI :: "state \<Rightarrow> state" where
  "cleanupUI st =
     (case countdownInterval st of
        None \<Rightarrow> st
      | Some h \<Rightarrow> if h \<noteq> 0 then (clearInterval h st)\<lparr>countdownInterval := None\<rparr> else st)"

text \<open>
  \<open>setLoading\<close> (ui module lines 418 to 423) writes a loading text into the countdown
  element; the app module calls it before it fetches a schedule.
\<close>

definition loading_text :: jsstring where
  "loading_text =
     [1580, 1575, 1585, 1610, 32, 1575, 1604, 1578, 1581, 1605, 1610, 1604, 46, 46, 46]"

definition setLoading :: "bool \<Rightarrow> state \<Rightarrow> state" where
  "setLoading isLoading st = (if isLoading then st\<lparr>countdown := loading_text\<rparr> else st)"

text \<open>
  \<open>updateNextPrayer\<close> of the ui module reads the clock, resolves, highlights, stores the
  selection and restarts the ticker, whose first tick reads the clock again (\<open>now'\<close>).
\<close>

definition updateNextPrayer :: "state \<Rightarrow> clock \<Rightarrow> clock \<Rightarrow> state" where
  "updateNextPrayer st now now' =
     (let next = nextPrayerName (prayerTimes st) now;
          current = currentPrayerName next
      in startCountdown (st\<lparr>active := highlight current, nextPrayer := Some next\<rparr>) now')"

text \<open>
  \<open>updateNextPrayer\<close> of the single-file script: instead of restarting the ticker it shows
  a transient text and asks for one tick 100 ms later.
\<close>

definition updating_text :: jsstring where
  "updating_text =
     [1580, 1575, 1585, 1610, 32, 1575, 1604, 1578, 1581, 1583, 1610, 1579, 46, 46, 46]"

definition updateNextPrayer_script :: "state \<Rightarrow> clock \<Rightarrow> state" where
  "updateNextPrayer_script st now =
     (let next = nextPrayerName (prayerTimes st) now;
          current = currentPrayerName next;
          st1 = st\<lparr>active := highlight current, nextPrayer := Some next,
                   countdown := updating_text\<rparr>
      in snd (setTimeout UpdateCountdown 100 st1))"

text \<open>
  \<open>updatePrayerTimes(timings)\<close> (ui module lines 67 to 83, script lines 270 to 286): the
  six strings of the service are formatted and stored together; if one \<open>formatTime\<close>
  throws, nothing is stored. The strings reach it as the service sent them.
\<close>

definition timingKeys :: "(jsstring \<times> jsstring) list" where
  "timingKeys = zip prayerOrder (map str [''Fajr'', ''Sunrise'', ''Dhuhr'', ''Asr'', ''Maghrib'', ''Isha''])"

fun formatAll :: "(jsstring \<Rightarrow> jsstring) \<Rightarrow> (jsstring \<times> jsstring) list
    \<Rightarrow> js_error + (jsstring \<times> jsstring) list" where
  "formatAll timings [] = Inr []"
| "formatAll timings ((prayer, key) # ks) =
     (case formatTime (timings key) of
        Inl e \<Rightarrow> Inl e
      | Inr s \<Rightarrow> (case formatAll timings ks of
                   Inl e \<Rightarrow> Inl e
                 | Inr rest \<Rightarrow> Inr ((prayer, s) # rest)))"

definition updatePrayerTimes :: "state \<Rightarrow> (jsstring \<Rightarrow> jsstring) \<Rightarrow> js_error + state" where
  "updatePrayerTimes st timings =
     (case formatAll timings timingKeys of
        Inl e \<Rightarrow> Inl e
      | Inr kvs \<Rightarrow> Inr (st\<lparr>prayerTimes := map_of kvs\<rparr>))"

text \<open>A run of ticks, one per clock reading.\<close>

fun ticks :: "(state \<Rightarrow> clock \<Rightarrow> bool \<times> state) \<Rightarrow> state \<Rightarrow> clock list \<Rightarrow> state" where
  "ticks tick st [] = st"
| "ticks tick st (now # rest) = ticks tick (snd (tick st now)) rest"

section \<open>Notions used in the statements\<close>

subsection \<open>Times of day and schedules\<close>

text \<open>
  \<open>display12h h m\<close> is the 12-hour display of the time of day \<open>h:m\<close>: the hour
  as 12, 1, ..., 11 without padding, the minute on two digits, a blank and the period
  marker. \<open>minutes_of\<close> is a time of day in minutes since midnight.
\<close>

definition hours12 :: "nat \<Rightarrow> nat" where
  "hours12 h = (if h mod 12 = 0 then 12 else h mod 12)"

definition period_of :: "nat \<Rightarrow> jsstring" where
  "period_of h = (if 12 \<le> h then PM else AM)"

definition display12h :: "nat \<Rightarrow> nat \<Rightarrow> jsstring" where
  "display12h h m = digits (hours12 h) @ [58] @ padStart 2 48 (digits m) @ [32] @ period_of h"

definition minutes_of :: "nat \<times> nat \<Rightarrow> nat" where
  "minutes_of t = fst t * 60 + snd t"

text \<open>
  A day's schedule is the list of the six times of day, in the order of \<open>prayerOrder\<close>.
  \<open>timings_of ts\<close> is the \<open>timings\<close> object the service sends for it. The schedule is
  well formed when all six times are there, each is a time of day, and they do not
  decrease.
\<close>

definition timings_of :: "(nat \<times> nat) list \<Rightarrow> jsstring \<Rightarrow> jsstring" where
  "timings_of ts key =
     (case map_of (zip (map snd timingKeys) ts) key of
        None \<Rightarrow> []
      | Some t \<Rightarrow> time24 (fst t) (snd t))"

definition wellformed :: "(nat \<times> nat) list \<Rightarrow> bool" where
  "wellformed ts =
     (length ts = 6 \<and> (\<forall>t \<in> set ts. fst t < 24 \<and> snd t < 60) \<and> sorted (map minutes_of ts))"

definition strictly_increasing :: "(nat \<times> nat) list \<Rightarrow> bool" where
  "strictly_increasing ts = sorted_wrt (<) (map minutes_of ts)"

text \<open>
  Clock readings: \<open>getHours\<close> is below 24, \<open>getMinutes\<close> and \<open>getSeconds\<close> below
  60. \<open>seconds_left h m now\<close> is the time from the reading \<open>now\<close> to the next
  occurrence of \<open>h:m:00\<close>: target minus current, plus 86400 when that is negative.
  \<open>hhmmss\<close> is a number of seconds as zero-padded hours, minutes and seconds.
\<close>

definition valid_clock :: "clock \<Rightarrow> bool" where
  "valid_clock now = (getHours now < 24 \<and> getMinutes now < 60 \<and> getSeconds now < 60)"

definition current_minutes :: "clock \<Rightarrow> nat" where
  "current_minutes now = getHours now * 60 + getMinutes now"

definition seconds_left :: "nat \<Rightarrow> nat \<Rightarrow> clock \<Rightarrow> nat" where
  "seconds_left h m now =
     (let target = h * 3600 + m * 60;
          current = getHours now * 3600 + getMinutes now * 60 + getSeconds now
      in if target < current then target + 86400 - current else target - current)"

definition hhmmss :: "nat \<Rightarrow> jsstring" where
  "hhmmss r =
     padStart 2 48 (digits (r div 3600)) @ [58] @ padStart 2 48 (digits (r mod 3600 div 60))
     @ [58] @ padStart 2 48 (digits (r mod 60))"

text \<open>
  The hour and minute fields of an entry as the tick reads them, and the 24-hour
  conversion of \<open>to24h\<close> on a whole hour.
\<close>

definition hourField :: "jsstring \<Rightarrow> jsstring" where
  "hourField entry = fst (js_split 58 (fst (js_split 32 entry)))"

definition minuteField :: "jsstring \<Rightarrow> jsstring option" where
  "minuteField entry = second (js_split 58 (fst (js_split 32 entry)))"

definition hour24 :: "jsstring option \<Rightarrow> nat \<Rightarrow> nat" where
  "hour24 period h =
     (if period = Some PM \<and> h < 12 then h + 12
      else if period = Some AM \<and> h = 12 then 0 else h)"

subsection \<open>Entries the scan passes over\<close>

text \<open>
  \<open>skipped\<close> is the condition under which one round of the scan loop goes on to the next
  identifier. An entry is \<open>malformed\<close> when its hour field or its minute field does not
  convert to a number (or there is no minute field); an identifier is \<open>unusable\<close> when
  its entry is missing, empty or malformed.
\<close>

definition skipped :: "(jsstring \<Rightarrow> jsstring option) \<Rightarrow> nat \<Rightarrow> jsstring \<Rightarrow> bool" where
  "skipped pt currentTime prayer =
     (case pt prayer of
        None \<Rightarrow> True
      | Some entry \<Rightarrow>
          entry = [] \<or> \<not> js_gt (prayerTimeInMinutes entry) (Fin (of_nat currentTime)))"

definition malformed :: "jsstring \<Rightarrow> bool" where
  "malformed entry =
     (let hm = js_split 58 (fst (js_split 32 entry))
      in Number (fst hm) = NaN
         \<or> (case second hm of None \<Rightarrow> True | Some ms \<Rightarrow> Number ms = NaN))"

definition unusable :: "(jsstring \<Rightarrow> jsstring option) \<Rightarrow> jsstring \<Rightarrow> bool" where
  "unusable pt prayer = (case pt prayer of None \<Rightarrow> True | Some entry \<Rightarrow> entry = [] \<or> malformed entry)"

subsection \<open>The ticker as a state machine\<close>

text \<open>
  \<open>athan_plays\<close> counts the calls of \<open>athanAudio.play()\<close> so far. \<open>countdown_timers\<close>
  are the live repeating one-second timers of the countdown. \<open>ticker_ok\<close> is the
  invariant of the timer handle: handles are positive and below the counter (the browser
  hands out positive handles), and the live countdown timers are exactly the one named by
  \<open>countdownInterval\<close>, or none when it is null. \<open>cleared\<close> is the state after the
  first statement of \<open>startCountdown\<close>. \<open>run_ops\<close> runs a sequence of starts and stops
  of the ticker.
\<close>

definition athan_plays :: "state \<Rightarrow> nat" where
  "athan_plays st = length (filter (\<lambda>e. e = PlayAthan) (events st))"

definition countdown_timers :: "state \<Rightarrow> (nat \<times> timer) list" where
  "countdown_timers st = filter (\<lambda>t. snd t = Interval UpdateCountdown 1000) (timers st)"

definition ticker_ok :: "state \<Rightarrow> bool" where
  "ticker_ok st =
     (0 < next_handle st
      \<and> list_all (\<lambda>t. 0 < fst t \<and> fst t < next_handle st) (timers st)
      \<and> countdown_timers st =
          (case countdownInterval st of
             None \<Rightarrow> []
           | Some h \<Rightarrow> [(h, Interval UpdateCountdown 1000)]))"

definition cleared :: "state \<Rightarrow> state" where
  "cleared st =
     (case countdownInterval st of
        None \<Rightarrow> st
      | Some h \<Rightarrow> if h \<noteq> 0 then clearInterval h st else st)"

datatype ticker_op = Start clock | Stop

fun run_ops :: "(state \<Rightarrow> clock \<Rightarrow> bool \<times> state) \<Rightarrow> state \<Rightarrow> ticker_op list \<Rightarrow> state" where
  "run_ops tick st [] = st"
| "run_ops tick st (Start now # ops) = run_ops tick (startCountdown_with tick st now) ops"
| "run_ops tick st (Stop # ops) = run_ops tick (cleanupUI st) ops"

subsection \<open>Concrete states and inputs\<close>

text \<open>
  \<open>st_init\<close> is the state when the page has loaded; \<open>minute_timer_state\<close> is that state
  once the application has set its one-minute date refresh. \<open>loaded ts\<close> holds the
  schedule \<open>ts\<close>. \<open>nan_entry\<close> is the entry stored for the service string
  \<open>04:31 (EET)\<close>, whose minute field does not convert.
\<close>

definition st_init :: state where
  "st_init = \<lparr>prayerTimes = (\<lambda>k. None), nextPrayer = None, countdownInterval = None,
              isAudioEnabled = False, countdown = [], active = [], timers = [],
              next_handle = 1, events = []\<rparr>"

definition minute_timer_state :: state where
  "minute_timer_state =
     st_init\<lparr>timers := [(1, Interval UpdateDateTime 60000)], next_handle := 2\<rparr>"

definition at_clock :: "nat \<Rightarrow> nat \<Rightarrow> nat \<Rightarrow> clock" where
  "at_clock h m s = \<lparr>getHours = h, getMinutes = m, getSeconds = s\<rparr>"

definition sample_times :: "(nat \<times> nat) list" where
  "sample_times = [(4, 31), (6, 2), (12, 0), (15, 30), (18, 1), (19, 25)]"

definition tied_times :: "(nat \<times> nat) list" where
  "tied_times = [(5, 0), (5, 0), (12, 0), (15, 30), (18, 1), (19, 25)]"

definition loaded :: "(nat \<times> nat) list \<Rightarrow> state" where
  "loaded ts =
     st_init\<lparr>prayerTimes := map_of (zip prayerOrder (map (\<lambda>t. display12h (fst t) (snd t)) ts))\<rparr>"

definition nan_entry :: jsstring where
  "nan_entry = str ''4:NaN'' @ [32] @ AM"

text \<open>
  The same schedule as the service would send it with a zone suffix after each time, the
  entries \<open>formatTime\<close> stores for it (\<open>zone_schedule\<close>), and the states of the two
  versions once that schedule is loaded and resolved at 04:00:00.
\<close>

definition zone_suffix :: jsstring where
  "zone_suffix = str '' (EET)''"

definition zone_timings :: "jsstring \<Rightarrow> jsstring" where
  "zone_timings key = timings_of sample_times key @ zone_suffix"

definition nan_display :: "nat \<Rightarrow> jsstring" where
  "nan_display h = digits (hours12 h) @ [58] @ str ''NaN'' @ [32] @ period_of h"

definition zone_schedule :: "jsstring \<Rightarrow> jsstring option" where
  "zone_schedule = map_of (zip prayerOrder (map (\<lambda>t. nan_display (fst t)) sample_times))"

definition ui_zone_state :: state where
  "ui_zone_state =
     updateNextPrayer ((setLoading True st_init)\<lparr>prayerTimes := zone_schedule\<rparr>)
       (at_clock 4 0 0) (at_clock 4 0 0)"

definition script_zone_state :: state where
  "script_zone_state =
     startCountdown_script
       (updateNextPrayer_script (st_init\<lparr>prayerTimes := zone_schedule\<rparr>) (at_clock 4 0 0))
       (at_clock 4 0 0)"

definition partial_state :: state where
  "partial_state =
     st_init\<lparr>prayerTimes := [str ''fajr'' \<mapsto> nan_entry, str ''dhuhr'' \<mapsto> display12h 12 0]\<rparr>"

definition broken_state :: state where
  "broken_state =
     st_init\<lparr>prayerTimes := [str ''fajr'' \<mapsto> nan_entry, str ''sunrise'' \<mapsto> []]\<rparr>"

definition midnight_times :: "(nat \<times> nat) list" where
  "midnight_times = [(0, 5), (6, 2), (12, 0), (15, 30), (18, 1), (19, 25)]"

definition midnight_state :: state where
  "midnight_state = (loaded midnight_times)\<lparr>nextPrayer := Some (str ''fajr'')\<rparr>"

definition audio_state :: state where
  "audio_state = (loaded sample_times)\<lparr>nextPrayer := Some (str ''fajr''), isAudioEnabled := True\<rparr>"

section \<open>Strings of digits\<close>

lemma js_split_none: "sep \<notin> set a \<Longrightarrow> js_split sep a = (a, [])"
  by (induction a) auto

lemma js_split_append:
  "sep \<notin> set a \<Longrightarrow> js_split sep (a @ sep # b) = (a, fst (js_split sep b) # snd (js_split sep b))"
  by (induction a) (auto simp: case_prod_beta)

lemma digits_all: "c \<in> set (digits n) \<Longrightarrow> is_digit c"
proof (induction n arbitrary: c rule: digits.induct)
  case (1 n)
  show ?case
  proof (cases "n < 10")
    case True
    with "1.prems" show ?thesis by (subst (asm) digits.simps) (simp add: is_digit_def)
  next
    case False
    have "n mod 10 < 10" by simp
    with False "1.prems" "1.IH" show ?thesis
      by (subst (asm) digits.simps) (auto simp: is_digit_def)
  qed
qed

lemma digits_nonempty: "digits n \<noteq> []"
  by (subst digits.simps) simp

lemma dec_value_snoc: "dec_value (s @ [c]) = 10 * dec_value s + (c - 48)"
  by (simp add: dec_value_def)

lemma dec_value_digits: "dec_value (digits n) = n"
proof (induction n rule: digits.induct)
  case (1 n)
  show ?case
  proof (cases "n < 10")
    case True
    then show ?thesis by (subst digits.simps) (simp add: dec_value_def)
  next
    case False
    with "1.IH" show ?thesis
      by (subst digits.simps) (simp add: dec_value_snoc)
  qed
qed

lemma dec_value_zeros: "dec_value (replicate k 48 @ s) = dec_value s"
proof -
  have "foldl (\<lambda>a c. 10 * a + (c - 48)) 0 (replicate k (48::nat)) = 0"
    by (induction k) simp_all
  then show ?thesis by (simp add: dec_value_def)
qed

lemma digit_not_ws: "is_digit c \<Longrightarrow> \<not> is_ws c"
  by (auto simp: is_digit_def is_ws_def)

lemma js_trim_digits:
  assumes "\<forall>c \<in> set s. is_digit c"
  shows "js_trim s = s"
proof -
  have a: "dropWhile is_ws s = s"
    using assms by (cases s) (auto simp: digit_not_ws)
  have b: "dropWhile is_ws (rev s) = rev s"
    using assms by (cases "rev s") (auto simp: digit_not_ws dest: arg_cong[where f = set])
  show ?thesis by (simp add: js_trim_def a b)
qed

lemma unsigned_decimal_digits:
  assumes "s \<noteq> []" and "\<forall>c \<in> set s. is_digit c"
  shows "unsigned_decimal s = Fin (of_nat (dec_value s))"
proof -
  have "73 \<in> set (str ''Infinity'')" by (simp add: str_def)
  moreover have "\<not> is_digit 73" by (simp add: is_digit_def)
  ultimately have ne: "s \<noteq> str ''Infinity''" using assms(2) by blast
  have tw: "takeWhile is_digit s = s" using assms(2) by (simp add: takeWhile_eq_all_conv)
  have dw: "dropWhile is_digit s = []" using assms(2) by (simp add: dropWhile_eq_Nil_conv)
  show ?thesis
    using assms(1) ne by (simp add: unsigned_decimal_def tw dw exponent_part_def pow10_def dec_value_def)
qed

lemma Number_digits:
  assumes "s \<noteq> []" and "\<forall>c \<in> set s. is_digit c"
  shows "Number s = Fin (of_nat (dec_value s))"
proof -
  obtain c cs where s: "s = c # cs" using assms(1) by (cases s) auto
  have c: "48 \<le> c" "c \<le> 57" using assms(2) s by (simp_all add: is_digit_def)
  have "Number (c # cs) = unsigned_decimal (c # cs)"
  proof (cases cs)
    case Nil
    with c show ?thesis
      using js_trim_digits[OF assms(2)] by (simp add: Number_def s)
  next
    case (Cons d ds)
    then have "48 \<le> d" "d \<le> 57" using assms(2) s by (simp_all add: is_digit_def)
    with c Cons show ?thesis
      using js_trim_digits[OF assms(2)] by (simp add: Number_def s)
  qed
  then show ?thesis using unsigned_decimal_digits[OF assms] by (simp add: s)
qed

lemma parseInt_digits:
  assumes "s \<noteq> []" and "\<forall>c \<in> set s. is_digit c"
  shows "parseInt s = Fin (of_nat (dec_value s))"
proof -
  obtain c cs where s: "s = c # cs" using assms(1) by (cases s) auto
  have c: "is_digit c" using assms(2) s by simp
  have a: "dropWhile is_ws s = s" using c s by (simp add: digit_not_ws)
  have sg: "hd s \<noteq> 43" "hd s \<noteq> 45" using c s by (auto simp: is_digit_def)
  have tw: "takeWhile is_digit s = s" using assms(2) by (simp add: takeWhile_eq_all_conv)
  show ?thesis using assms(1) sg by (simp add: parseInt_def a tw Let_def)
qed

lemma toString_nat: "toString (Fin (of_nat n)) = digits n"
  by (simp add: unsigned_toString_def)

lemma digits_small: "n < 10 \<Longrightarrow> digits n = [48 + n]"
  by (subst digits.simps) simp

lemma digits_two: "10 \<le> n \<Longrightarrow> n < 100 \<Longrightarrow> digits n = [48 + n div 10, 48 + n mod 10]"
  by (subst digits.simps) (simp add: digits_small)

lemma pad2_all: "c \<in> set (padStart 2 48 (digits n)) \<Longrightarrow> is_digit c"
  by (auto simp: padStart_def digits_all) (simp add: is_digit_def)

lemma pad2_nonempty: "padStart 2 48 (digits n) \<noteq> []"
  by (simp add: padStart_def digits_nonempty)

lemma dec_value_pad2: "dec_value (padStart 2 48 (digits n)) = n"
  by (simp add: padStart_def dec_value_zeros dec_value_digits)

lemma digit_not_sep: "is_digit c \<Longrightarrow> c \<noteq> 58 \<and> c \<noteq> 32"
  by (auto simp: is_digit_def)

lemma js_rem_nat:
  assumes "0 < d"
  shows "js_rem (Fin (of_nat n)) (Fin (of_nat d)) = Fin (of_nat (n mod d))"
proof -
  have q: "trunc (of_nat n / of_nat d) = int (n div d)"
    by (simp add: trunc_def floor_divide_of_nat_eq)
  have "(of_nat n :: rat) = of_nat (d * (n div d) + n mod d)" by simp
  then have "(of_nat n :: rat) - of_nat d * of_nat (n div d) = of_nat (n mod d)"
    by (simp only: of_nat_add of_nat_mult)
  with assms show ?thesis by (simp add: q)
qed

lemma js_div_floor_nat:
  assumes "0 < d"
  shows "js_floor (js_div (Fin (of_nat n)) (Fin (of_nat d))) = Fin (of_nat (n div d))"
  using assms by (simp add: floor_divide_of_nat_eq)

lemma unsigned_toString_nat: "unsigned_toString (of_nat n) = digits n"
  by (simp add: unsigned_toString_def)

lemma unsigned_toString_numeral: "unsigned_toString (numeral k) = digits (numeral k)"
  using unsigned_toString_nat[of "numeral k"] by simp

lemma formatTime_time24:
  "formatTime (time24 h m) =
     Inr (digits (hours12 h) @ [58] @ padStart 2 48 (digits m) @ [32] @ (if 12 \<le> h then PM else AM))"
proof -
  let ?hs = "padStart 2 48 (digits h)" and ?ms = "padStart 2 48 (digits m)"
  have nh: "58 \<notin> set ?hs" and nm: "58 \<notin> set ?ms"
    using pad2_all digit_not_sep by blast+
  have sp: "js_split 58 (time24 h m) = (?hs, [?ms])"
    using js_split_append[OF nh, of ?ms] js_split_none[OF nm] by (simp add: time24_def)
  have H: "Number ?hs = Fin (of_nat h)"
    using Number_digits[of ?hs] pad2_all pad2_nonempty by (simp add: dec_value_pad2)
  have M: "Number ?ms = Fin (of_nat m)"
    using Number_digits[of ?ms] pad2_all pad2_nonempty by (simp add: dec_value_pad2)
  have R: "js_rem (Fin (of_nat h)) (Fin 12) = Fin (of_nat (h mod 12))"
    using js_rem_nat[of 12 h] by simp
  show ?thesis
    by (simp add: formatTime_def sp second_def H M R js_ge_def truthy_def hours12_def
        unsigned_toString_nat unsigned_toString_numeral del: js_rem.simps)
qed

section \<open>Formatting and parsing a time of day\<close>

lemma formatTime_display12h: "formatTime (time24 h m) = Inr (display12h h m)"
  by (simp add: formatTime_time24 display12h_def period_of_def)

lemma to24h_hours12:
  assumes "h < 24"
  shows "to24h (Some (period_of h)) (Fin (of_nat (hours12 h))) = Fin (of_nat h)"
proof (cases "12 \<le> h")
  case True
  then have "h mod 12 = h - 12" using assms by (simp add: mod_if)
  with True assms show ?thesis
    by (auto simp: to24h_def hours12_def PM_def AM_def js_eq_def Let_def period_of_def)
next
  case False
  then have "h mod 12 = h" by simp
  with False show ?thesis
    by (auto simp: to24h_def hours12_def PM_def AM_def js_eq_def Let_def period_of_def)
qed

lemma split_display12h:
  "js_split 32 (display12h h m) =
     (digits (hours12 h) @ 58 # padStart 2 48 (digits m), [period_of h])"
proof -
  let ?a = "digits (hours12 h) @ 58 # padStart 2 48 (digits m)"
  have na: "32 \<notin> set ?a"
    using digits_all[of 32 "hours12 h"] pad2_all[of 32 m] by (auto simp: is_digit_def)
  have np: "js_split 32 (period_of h) = (period_of h, [])"
    by (simp add: PM_def AM_def period_of_def)
  show ?thesis
    using js_split_append[OF na, of "period_of h"] by (simp add: display12h_def np)
qed

lemma split_time:
  "js_split 58 (digits (hours12 h) @ 58 # padStart 2 48 (digits m)) =
     (digits (hours12 h), [padStart 2 48 (digits m)])"
proof -
  have nh: "58 \<notin> set (digits (hours12 h))"
    using digits_all[of 58 "hours12 h"] by (auto simp: is_digit_def)
  have nm: "58 \<notin> set (padStart 2 48 (digits m))"
    using pad2_all[of 58 m] by (auto simp: is_digit_def)
  show ?thesis
    using js_split_append[OF nh, of "padStart 2 48 (digits m)"] js_split_none[OF nm] by simp
qed

lemma parsePrayerTime_display12h:
  assumes "h < 24"
  shows "parsePrayerTime (display12h h m) = (Fin (of_nat h), Some (Fin (of_nat m)))"
proof -
  have H: "Number (digits (hours12 h)) = Fin (of_nat (hours12 h))"
    using Number_digits[of "digits (hours12 h)"] digits_all digits_nonempty
    by (simp add: dec_value_digits)
  have M: "Number (padStart 2 48 (digits m)) = Fin (of_nat m)"
    using Number_digits[of "padStart 2 48 (digits m)"] pad2_all pad2_nonempty
    by (simp add: dec_value_pad2)
  show ?thesis
    by (simp add: parsePrayerTime_def split_display12h split_time second_def H M
        to24h_hours12[OF assms])
qed

lemma prayerTimeInMinutes_display12h:
  assumes "h < 24"
  shows "prayerTimeInMinutes (display12h h m) = Fin (of_nat (h * 60 + m))"
  by (simp add: prayerTimeInMinutes_def parsePrayerTime_display12h[OF assms] ToNumber_def)

lemma timeRemaining_display12h:
  assumes "h < 24" and "getHours now < 24" and "getMinutes now < 60" and "getSeconds now < 60"
  shows "timeRemaining (display12h h m) now = Some (Fin (of_nat (seconds_left h m now)))"
proof -
  have H: "parseInt (digits (hours12 h)) = Fin (of_nat (hours12 h))"
    using parseInt_digits[of "digits (hours12 h)"] digits_all digits_nonempty
    by (simp add: dec_value_digits)
  have M: "parseInt (padStart 2 48 (digits m)) = Fin (of_nat m)"
    using parseInt_digits[of "padStart 2 48 (digits m)"] pad2_all pad2_nonempty
    by (simp add: dec_value_pad2)
  define c where "c = getHours now * 3600 + getMinutes now * 60 + getSeconds now"
  define t where "t = h * 3600 + m * 60"
  have c: "c < 86400" using assms by (simp add: c_def)
  have eq: "timeRemaining (display12h h m) now =
      Some (let r = js_sub (Fin (of_nat t)) (Fin (of_nat c))
            in if js_lt r (Fin 0) then js_add r (Fin 86400) else r)"
    by (simp add: timeRemaining_def split_display12h split_time second_def H M
        parseInt_opt_def isNaN_def Let_def to24h_hours12[OF assms(1)] c_def t_def)
  have r: "js_sub (Fin (of_nat t)) (Fin (of_nat c)) = Fin (of_int (int t - int c))"
    by (simp add: js_sub_def)
  have sl: "seconds_left h m now = (if t < c then t + 86400 - c else t - c)"
    by (simp add: seconds_left_def c_def t_def)
  show ?thesis
  proof (cases "t < c")
    case True
    then have "int t - int c < 0" by simp
    moreover have "of_int (int t - int c) + (86400::rat) = of_nat (t + 86400 - c)"
      using c by (simp add: of_nat_diff)
    ultimately show ?thesis using True by (simp add: eq r sl del: of_int_diff)
  next
    case False
    then have "\<not> int t - int c < 0" by simp
    moreover have "(of_int (int t - int c) :: rat) = of_nat (t - c)"
      using False by (simp add: of_nat_diff)
    ultimately show ?thesis using False by (simp add: eq r sl del: of_int_diff)
  qed
qed

lemma display12h_nonempty: "display12h h m \<noteq> []"
  by (simp add: display12h_def)

lemma entry_is_display12h: "formatTime (time24 h m) = Inr entry \<Longrightarrow> entry = display12h h m"
  by (simp add: formatTime_display12h)

text \<open>
  C5. Formatting a time of day (hour 0 to 23, minute 0 to 59) with \<open>formatTime\<close> and
  parsing the display string back with the rule of \<open>updateNextPrayer\<close> (evening marker
  and hour below 12 adds 12; morning marker and hour 12 gives 0) returns the original hour
  and minute.
\<close>

theorem formatTime_parse_roundtrip:
  assumes "h < 24" and "m < 60"
  shows "\<exists>s. formatTime (time24 h m) = Inr s
             \<and> parsePrayerTime s = (Fin (of_nat h), Some (Fin (of_nat m)))"
  using assms(1) by (simp add: formatTime_display12h parsePrayerTime_display12h)

theorem formatTime_parse_roundtrip_witness:
  "(13::nat) < 24 \<and> (7::nat) < 60
   \<and> (\<exists>s. formatTime (time24 13 7) = Inr s \<and> parsePrayerTime s = (Fin 13, Some (Fin 7)))"
  using formatTime_parse_roundtrip[of 13 7] by simp

section \<open>The scan of the resolver\<close>

lemma findNext_None:
  "\<forall>k \<in> set ks. skipped pt ct k \<Longrightarrow> findNext pt ct ks = None"
  by (induction ks) (auto simp: skipped_def split: option.splits)

lemma findNext_first:
  "\<forall>k \<in> set pre. skipped pt ct k \<Longrightarrow> \<not> skipped pt ct k \<Longrightarrow>
   findNext pt ct (pre @ k # post) = Some k"
  by (induction pre) (auto simp: skipped_def split: option.splits)

lemma findNext_Some:
  "findNext pt ct ks = Some p \<Longrightarrow> p \<in> set ks \<and> \<not> skipped pt ct p"
  by (induction ks) (auto simp: skipped_def split: option.splits if_splits)

lemma prayerOrder_length: "length prayerOrder = 6"
  by (simp add: prayerOrder_def)

lemma prayerOrder_distinct: "distinct prayerOrder"
  by (simp add: prayerOrder_def str_def)

lemma prayerOrder_nth:
  "prayerOrder ! 0 = str ''fajr''" "prayerOrder ! 1 = str ''sunrise''"
  "prayerOrder ! 2 = str ''dhuhr''" "prayerOrder ! 3 = str ''asr''"
  "prayerOrder ! 4 = str ''maghrib''" "prayerOrder ! 5 = str ''isha''"
  "prayerOrder ! Suc 0 = str ''sunrise''"
  by (simp_all add: prayerOrder_def)

lemma less_6_cases: "i < 6 \<Longrightarrow> i = 0 \<or> i = 1 \<or> i = 2 \<or> i = 3 \<or> i = 4 \<or> i = (5::nat)"
  by arith

lemma prayerOrder_nonempty: "i < 6 \<Longrightarrow> prayerOrder ! i \<noteq> []"
  using less_6_cases[of i] by (auto simp: prayerOrder_def str_def)

lemma currentPrayerName_nth:
  assumes "i < 6"
  shows "currentPrayerName (prayerOrder ! i) = Some (prayerOrder ! ((i + 5) mod 6))"
  using less_6_cases[OF assms]
  by (elim disjE) (simp_all add: currentPrayerName_def prayerOrder_def str_def at_index_def)

lemma nextPrayerName_mem: "nextPrayerName pt now \<in> set prayerOrder"
proof (cases "findNext pt (getHours now * 60 + getMinutes now) prayerOrder")
  case None
  then show ?thesis by (simp add: nextPrayerName_def prayerOrder_def)
next
  case (Some p)
  from findNext_Some[OF Some] have "p \<in> set prayerOrder" by simp
  with Some show ?thesis by (auto simp: nextPrayerName_def prayerOrder_def)
qed

lemma findNext_prayerOrder_at:
  assumes "k < 6" and "\<forall>j<k. skipped pt ct (prayerOrder ! j)"
    and "\<not> skipped pt ct (prayerOrder ! k)"
  shows "findNext pt ct prayerOrder = Some (prayerOrder ! k)"
proof -
  have split: "prayerOrder = take k prayerOrder @ prayerOrder ! k # drop (Suc k) prayerOrder"
    using assms(1) by (simp add: id_take_nth_drop prayerOrder_length)
  have "\<forall>p \<in> set (take k prayerOrder). skipped pt ct p"
  proof
    fix p assume "p \<in> set (take k prayerOrder)"
    then obtain j where "j < k" "p = prayerOrder ! j"
      using assms(1) by (auto simp: in_set_conv_nth prayerOrder_length)
    with assms(2) show "skipped pt ct p" by simp
  qed
  from findNext_first[OF this assms(3), of "drop (Suc k) prayerOrder"] split
  show ?thesis by simp
qed

lemma findNext_prayerOrder_none:
  assumes "\<forall>j<6. skipped pt ct (prayerOrder ! j)"
  shows "findNext pt ct prayerOrder = None"
proof (rule findNext_None, rule ballI)
  fix p assume "p \<in> set prayerOrder"
  then obtain j where "j < 6" "p = prayerOrder ! j"
    by (auto simp: in_set_conv_nth prayerOrder_length)
  with assms show "skipped pt ct p" by simp
qed

lemma nextPrayerName_at:
  assumes "k < 6" and "\<forall>j<k. skipped pt (current_minutes now) (prayerOrder ! j)"
    and "\<not> skipped pt (current_minutes now) (prayerOrder ! k)"
  shows "nextPrayerName pt now = prayerOrder ! k"
  using findNext_prayerOrder_at[OF assms] prayerOrder_nonempty[OF assms(1)]
  by (simp add: nextPrayerName_def current_minutes_def)

lemma nextPrayerName_default:
  assumes "\<forall>j<6. skipped pt (current_minutes now) (prayerOrder ! j)"
  shows "nextPrayerName pt now = prayerOrder ! 0"
  using findNext_prayerOrder_none[OF assms]
  by (simp add: nextPrayerName_def current_minutes_def prayerOrder_nth)

text \<open>What a tick and a restart of the ticker leave unchanged.\<close>

lemma updateCountdown_frame:
  "prayerTimes (snd (updateCountdown st now)) = prayerTimes st"
  "nextPrayer (snd (updateCountdown st now)) = nextPrayer st"
  "active (snd (updateCountdown st now)) = active st"
  "isAudioEnabled (snd (updateCountdown st now)) = isAudioEnabled st"
  "countdownInterval (snd (updateCountdown st now)) = countdownInterval st"
  "timers (snd (updateCountdown st now)) = timers st"
  "next_handle (snd (updateCountdown st now)) = next_handle st"
  by (simp_all add: updateCountdown_def Let_def split: option.splits)

lemma updateCountdown_script_frame:
  "prayerTimes (snd (updateCountdown_script st now)) = prayerTimes st"
  "nextPrayer (snd (updateCountdown_script st now)) = nextPrayer st"
  "active (snd (updateCountdown_script st now)) = active st"
  "isAudioEnabled (snd (updateCountdown_script st now)) = isAudioEnabled st"
  "countdownInterval (snd (updateCountdown_script st now)) = countdownInterval st"
  "timers (snd (updateCountdown_script st now)) = timers st"
  "next_handle (snd (updateCountdown_script st now)) = next_handle st"
  by (simp_all add: updateCountdown_script_def playAthan_script_def Let_def split: option.splits)

lemma startCountdown_frame:
  "prayerTimes (startCountdown st now) = prayerTimes st"
  "nextPrayer (startCountdown st now) = nextPrayer st"
  "active (startCountdown st now) = active st"
  by (simp_all add: startCountdown_def startCountdown_with_def setInterval_def clearInterval_def
      updateCountdown_frame Let_def split: option.splits)

lemma updateNextPrayer_result:
  "nextPrayer (updateNextPrayer st now now') = Some (nextPrayerName (prayerTimes st) now)"
  "active (updateNextPrayer st now now')
     = highlight (currentPrayerName (nextPrayerName (prayerTimes st) now))"
  by (simp_all add: updateNextPrayer_def startCountdown_frame Let_def)

lemma updateNextPrayer_script_result:
  "nextPrayer (updateNextPrayer_script st now) = Some (nextPrayerName (prayerTimes st) now)"
  "active (updateNextPrayer_script st now)
     = highlight (currentPrayerName (nextPrayerName (prayerTimes st) now))"
  by (simp_all add: updateNextPrayer_script_def setTimeout_def Let_def)

lemma highlight_nth:
  "i < 6 \<Longrightarrow> highlight (Some (prayerOrder ! i)) = [prayerOrder ! i]"
  by (simp add: highlight_def prayerOrder_length)

lemma resolved:
  assumes "nextPrayerName (prayerTimes st) now = prayerOrder ! i" and "i < 6"
  shows "nextPrayer (updateNextPrayer st now now') = Some (prayerOrder ! i)"
    and "active (updateNextPrayer st now now') = [prayerOrder ! ((i + 5) mod 6)]"
    and "nextPrayer (updateNextPrayer_script st now) = Some (prayerOrder ! i)"
    and "active (updateNextPrayer_script st now) = [prayerOrder ! ((i + 5) mod 6)]"
  using assms
  by (simp_all add: updateNextPrayer_result updateNextPrayer_script_result currentPrayerName_nth
      highlight_nth)

section \<open>Schedules loaded from the service\<close>

lemma updatePrayerTimes_timings_of:
  assumes "length ts = 6"
  shows "updatePrayerTimes st (timings_of ts)
         = Inr (st\<lparr>prayerTimes := map_of (zip prayerOrder (map (\<lambda>t. display12h (fst t) (snd t)) ts))\<rparr>)"
proof -
  from assms obtain a b c d e f where ts: "ts = [a, b, c, d, e, f]"
    by (auto simp: length_Suc_conv eval_nat_numeral)
  have k: "timings_of ts (str ''Fajr'') = time24 (fst a) (snd a)"
    "timings_of ts (str ''Sunrise'') = time24 (fst b) (snd b)"
    "timings_of ts (str ''Dhuhr'') = time24 (fst c) (snd c)"
    "timings_of ts (str ''Asr'') = time24 (fst d) (snd d)"
    "timings_of ts (str ''Maghrib'') = time24 (fst e) (snd e)"
    "timings_of ts (str ''Isha'') = time24 (fst f) (snd f)"
    by (simp_all add: timings_of_def timingKeys_def prayerOrder_def ts str_def)
  have "formatAll (timings_of ts) timingKeys
        = Inr (zip prayerOrder (map (\<lambda>t. display12h (fst t) (snd t)) ts))"
    using k by (simp add: timingKeys_def prayerOrder_def formatTime_display12h ts)
  then show ?thesis by (simp add: updatePrayerTimes_def)
qed

lemma schedule_nth:
  assumes "length ts = 6" and "i < 6"
  shows "map_of (zip prayerOrder (map (\<lambda>t. display12h (fst t) (snd t)) ts)) (prayerOrder ! i)
         = Some (display12h (fst (ts ! i)) (snd (ts ! i)))"
  using map_of_zip_nth[of prayerOrder "map (\<lambda>t. display12h (fst t) (snd t)) ts" i] assms
  by (simp add: prayerOrder_length prayerOrder_distinct)

lemma skipped_schedule:
  assumes "length ts = 6" and "i < 6" and "fst (ts ! i) < 24"
  shows "skipped (map_of (zip prayerOrder (map (\<lambda>t. display12h (fst t) (snd t)) ts))) ct
           (prayerOrder ! i) = (minutes_of (ts ! i) \<le> ct)"
  using assms(3)
  by (simp add: skipped_def schedule_nth[OF assms(1,2)] display12h_nonempty
      prayerTimeInMinutes_display12h js_gt_def minutes_of_def not_less del: of_nat_add of_nat_mult)

lemma loaded_state:
  assumes "length ts = 6" and "updatePrayerTimes st0 (timings_of ts) = Inr st"
  shows "prayerTimes st = map_of (zip prayerOrder (map (\<lambda>t. display12h (fst t) (snd t)) ts))"
  using assms(2) by (simp add: updatePrayerTimes_timings_of[OF assms(1)]) auto

lemma skipped_loaded:
  assumes "wellformed ts" and "updatePrayerTimes st0 (timings_of ts) = Inr st" and "i < 6"
  shows "skipped (prayerTimes st) ct (prayerOrder ! i) = (minutes_of (ts ! i) \<le> ct)"
proof -
  have len: "length ts = 6" using assms(1) by (simp add: wellformed_def)
  then have "ts ! i \<in> set ts" using assms(3) by simp
  then have "fst (ts ! i) < 24" using assms(1) by (simp add: wellformed_def)
  then show ?thesis
    using skipped_schedule[OF len assms(3)] by (simp add: loaded_state[OF len assms(2)])
qed

lemma wellformed_mono:
  assumes "wellformed ts" and "i \<le> j" and "j < 6"
  shows "minutes_of (ts ! i) \<le> minutes_of (ts ! j)"
proof -
  have "sorted (map minutes_of ts)" "length ts = 6" using assms(1) by (simp_all add: wellformed_def)
  then show ?thesis
    using sorted_nth_mono[of "map minutes_of ts" i j] assms(2,3) by simp
qed

lemma strictly_increasing_less:
  assumes "strictly_increasing ts" and "length ts = 6" and "i < j" and "j < 6"
  shows "minutes_of (ts ! i) < minutes_of (ts ! j)"
  using sorted_wrt_nth_less[of "(<)" "map minutes_of ts" i j] assms
  by (simp add: strictly_increasing_def)

lemma wellformed_bound:
  assumes "wellformed ts" and "i < 6"
  shows "minutes_of (ts ! i) < 1440"
proof -
  have "ts ! i \<in> set ts" using assms by (simp add: wellformed_def)
  then have "fst (ts ! i) < 24" "snd (ts ! i) < 60" using assms(1) by (simp_all add: wellformed_def)
  then show ?thesis by (simp add: minutes_of_def)
qed

lemma wellformed_sample: "wellformed sample_times"
  by (simp add: wellformed_def sample_times_def minutes_of_def)

lemma wellformed_tied: "wellformed tied_times"
  by (simp add: wellformed_def tied_times_def minutes_of_def)

lemma strictly_increasing_sample: "strictly_increasing sample_times"
  by (simp add: strictly_increasing_def sample_times_def minutes_of_def)

lemma updatePrayerTimes_loaded:
  "length ts = 6 \<Longrightarrow> updatePrayerTimes st_init (timings_of ts) = Inr (loaded ts)"
  by (simp add: updatePrayerTimes_timings_of loaded_def)

lemma loaded_fajr:
  assumes "length ts = 6"
  shows "prayerTimes (loaded ts) (str ''fajr'') = Some (display12h (fst (ts ! 0)) (snd (ts ! 0)))"
  using schedule_nth[OF assms, of 0] by (simp add: loaded_def prayerOrder_nth)

lemma tied_entries:
  "prayerTimes (loaded tied_times) (str ''fajr'') = Some (str ''5:00'' @ [32] @ AM)"
  "prayerTimes (loaded tied_times) (str ''sunrise'') = Some (str ''5:00'' @ [32] @ AM)"
  "prayerTimes (loaded tied_times) (str ''dhuhr'') = Some (str ''12:00'' @ [32] @ PM)"
proof -
  have len: "length tied_times = 6" by (simp add: tied_times_def)
  have d: "display12h 5 0 = str ''5:00'' @ [32] @ AM" "display12h 12 0 = str ''12:00'' @ [32] @ PM"
    by (simp_all add: display12h_def hours12_def digits_small digits_two padStart_def
        period_of_def str_def)
  show "prayerTimes (loaded tied_times) (str ''fajr'') = Some (str ''5:00'' @ [32] @ AM)"
    using schedule_nth[OF len, of 0] d by (simp add: loaded_def prayerOrder_nth tied_times_def)
  show "prayerTimes (loaded tied_times) (str ''sunrise'') = Some (str ''5:00'' @ [32] @ AM)"
    using schedule_nth[OF len, of 1] d by (simp add: loaded_def prayerOrder_nth tied_times_def)
  show "prayerTimes (loaded tied_times) (str ''dhuhr'') = Some (str ''12:00'' @ [32] @ PM)"
    using schedule_nth[OF len, of 2] d by (simp add: loaded_def prayerOrder_nth tied_times_def)
qed

lemma midnight_state_fields:
  "nextPrayer midnight_state = Some (str ''fajr'')"
  "prayerTimes midnight_state (str ''fajr'') = Some (display12h 0 5)"
proof -
  have "length midnight_times = 6" by (simp add: midnight_times_def)
  from loaded_fajr[OF this]
  show "prayerTimes midnight_state (str ''fajr'') = Some (display12h 0 5)"
    by (simp add: midnight_state_def midnight_times_def)
  show "nextPrayer midnight_state = Some (str ''fajr'')" by (simp add: midnight_state_def)
qed

text \<open>
  C4. For a well-formed schedule (six times of day, not decreasing) loaded with
  \<open>updatePrayerTimes\<close>: when the clock is strictly before fajr, or strictly after isha,
  the resolver stores fajr as next and highlights isha as current. Both versions of
  \<open>updateNextPrayer\<close>.
\<close>

theorem before_fajr_and_after_isha:
  assumes "wellformed ts" and "updatePrayerTimes st0 (timings_of ts) = Inr st"
    and "current_minutes now < minutes_of (ts ! 0) \<or> minutes_of (ts ! 5) < current_minutes now"
  shows "nextPrayer (updateNextPrayer st now now') = Some (str ''fajr'')
       \<and> active (updateNextPrayer st now now') = [str ''isha'']
       \<and> nextPrayer (updateNextPrayer_script st now) = Some (str ''fajr'')
       \<and> active (updateNextPrayer_script st now) = [str ''isha'']"
proof -
  have "nextPrayerName (prayerTimes st) now = prayerOrder ! 0"
    using assms(3)
  proof
    assume "current_minutes now < minutes_of (ts ! 0)"
    then have "\<not> skipped (prayerTimes st) (current_minutes now) (prayerOrder ! 0)"
      by (simp add: skipped_loaded[OF assms(1,2)])
    then show ?thesis using nextPrayerName_at[of 0 "prayerTimes st" now] by simp
  next
    assume late: "minutes_of (ts ! 5) < current_minutes now"
    have "\<forall>j<6. skipped (prayerTimes st) (current_minutes now) (prayerOrder ! j)"
    proof (intro allI impI)
      fix j :: nat assume j: "j < 6"
      then have "minutes_of (ts ! j) \<le> minutes_of (ts ! 5)"
        using wellformed_mono[OF assms(1), of j 5] by simp
      with late j show "skipped (prayerTimes st) (current_minutes now) (prayerOrder ! j)"
        by (simp add: skipped_loaded[OF assms(1,2)])
    qed
    then show ?thesis by (rule nextPrayerName_default)
  qed
  from resolved[OF this] show ?thesis by (simp add: prayerOrder_nth)
qed

theorem before_fajr_and_after_isha_witness:
  "wellformed sample_times
   \<and> updatePrayerTimes st_init (timings_of sample_times) = Inr (loaded sample_times)
   \<and> current_minutes (at_clock 3 0 0) < minutes_of (sample_times ! 0)
   \<and> nextPrayer (updateNextPrayer (loaded sample_times) (at_clock 3 0 0) (at_clock 3 0 0))
       = Some (str ''fajr'')
   \<and> active (updateNextPrayer (loaded sample_times) (at_clock 3 0 0) (at_clock 3 0 0))
       = [str ''isha'']
   \<and> minutes_of (sample_times ! 5) < current_minutes (at_clock 23 10 0)
   \<and> nextPrayer (updateNextPrayer_script (loaded sample_times) (at_clock 23 10 0))
       = Some (str ''fajr'')
   \<and> active (updateNextPrayer_script (loaded sample_times) (at_clock 23 10 0))
       = [str ''isha'']"
proof -
  have l: "updatePrayerTimes st_init (timings_of sample_times) = Inr (loaded sample_times)"
    by (rule updatePrayerTimes_loaded) (simp add: sample_times_def)
  have a: "current_minutes (at_clock 3 0 0) < minutes_of (sample_times ! 0)"
    by (simp add: current_minutes_def at_clock_def minutes_of_def sample_times_def)
  have b: "minutes_of (sample_times ! 5) < current_minutes (at_clock 23 10 0)"
    by (simp add: current_minutes_def at_clock_def minutes_of_def sample_times_def)
  show ?thesis
    using before_fajr_and_after_isha[OF wellformed_sample l disjI1[OF a], of "at_clock 3 0 0"]
      before_fajr_and_after_isha[OF wellformed_sample l disjI2[OF b], of "at_clock 23 10 0"]
      wellformed_sample l a b
    by simp
qed

text \<open>
  C3, as amended. For a well-formed schedule whose six times strictly increase: one minute
  before the time of the prayer at position \<open>i\<close> (that is 23:59 when the time is 00:00)
  the resolver selects that prayer as next; exactly at its time it selects the prayer at
  position \<open>i + 1\<close>, and fajr after isha. Both versions of \<open>updateNextPrayer\<close>.
\<close>

theorem one_minute_before_and_at_prayer_time:
  assumes "wellformed ts" and "strictly_increasing ts"
    and "updatePrayerTimes st0 (timings_of ts) = Inr st" and "i < 6"
  shows "(current_minutes now = (minutes_of (ts ! i) + 1439) mod 1440 \<longrightarrow>
            nextPrayer (updateNextPrayer st now now') = Some (prayerOrder ! i)
          \<and> nextPrayer (updateNextPrayer_script st now) = Some (prayerOrder ! i))
       \<and> (current_minutes now = minutes_of (ts ! i) \<longrightarrow>
            nextPrayer (updateNextPrayer st now now') = Some (prayerOrder ! ((i + 1) mod 6))
          \<and> nextPrayer (updateNextPrayer_script st now) = Some (prayerOrder ! ((i + 1) mod 6)))"
proof (intro conjI impI)
  let ?pt = "prayerTimes st" and ?ct = "current_minutes now"
  have len: "length ts = 6" using assms(1) by (simp add: wellformed_def)
  note sk = skipped_loaded[OF assms(1,3)]
  {
    assume before: "?ct = (minutes_of (ts ! i) + 1439) mod 1440"
    have "nextPrayerName ?pt now = prayerOrder ! i"
    proof (cases "minutes_of (ts ! i) = 0")
      case True
      have i0: "i = 0"
      proof (rule ccontr)
        assume "i \<noteq> 0"
        then have "minutes_of (ts ! 0) < minutes_of (ts ! i)"
          using strictly_increasing_less[OF assms(2) len, of 0 i] assms(4) by simp
        with True show False by simp
      qed
      have ct: "?ct = 1439" using before True by simp
      have "\<forall>j<6. skipped ?pt ?ct (prayerOrder ! j)"
      proof (intro allI impI)
        fix j :: nat assume j: "j < 6"
        from wellformed_bound[OF assms(1) j] have "minutes_of (ts ! j) \<le> 1439" by simp
        with j show "skipped ?pt ?ct (prayerOrder ! j)" by (simp add: sk ct)
      qed
      from nextPrayerName_default[OF this] i0 show ?thesis by simp
    next
      case False
      have "minutes_of (ts ! i) < 1440" by (rule wellformed_bound[OF assms(1,4)])
      with False before have ct: "?ct = minutes_of (ts ! i) - 1" by (simp add: mod_if)
      have "\<forall>j<i. skipped ?pt ?ct (prayerOrder ! j)"
      proof (intro allI impI)
        fix j assume j: "j < i"
        then have "minutes_of (ts ! j) < minutes_of (ts ! i)"
          using strictly_increasing_less[OF assms(2) len, of j i] assms(4) by simp
        then show "skipped ?pt ?ct (prayerOrder ! j)" using j assms(4) by (simp add: sk ct)
      qed
      moreover have "\<not> skipped ?pt ?ct (prayerOrder ! i)"
        using False assms(4) by (simp add: sk ct)
      ultimately show ?thesis using nextPrayerName_at[OF assms(4)] by simp
    qed
    from resolved(1,3)[OF this assms(4)]
    show "nextPrayer (updateNextPrayer st now now') = Some (prayerOrder ! i)"
      and "nextPrayer (updateNextPrayer_script st now) = Some (prayerOrder ! i)" by simp_all
  }
  {
    assume at: "?ct = minutes_of (ts ! i)"
    have upto: "\<forall>j<Suc i. skipped ?pt ?ct (prayerOrder ! j)"
    proof (intro allI impI)
      fix j assume j: "j < Suc i"
      then have "minutes_of (ts ! j) \<le> minutes_of (ts ! i)"
        using wellformed_mono[OF assms(1), of j i] assms(4) by simp
      then show "skipped ?pt ?ct (prayerOrder ! j)" using j assms(4) by (simp add: sk at)
    qed
    have "nextPrayerName ?pt now = prayerOrder ! ((i + 1) mod 6)"
    proof (cases "i = 5")
      case True
      with upto have "\<forall>j<6. skipped ?pt ?ct (prayerOrder ! j)" by (simp add: eval_nat_numeral)
      from nextPrayerName_default[OF this] True show ?thesis by simp
    next
      case False
      with assms(4) have s: "Suc i < 6" by simp
      have "minutes_of (ts ! i) < minutes_of (ts ! Suc i)"
        using strictly_increasing_less[OF assms(2) len, of i "Suc i"] s by simp
      then have "\<not> skipped ?pt ?ct (prayerOrder ! Suc i)" using s by (simp add: sk at)
      from nextPrayerName_at[OF s upto this] s show ?thesis by simp
    qed
    moreover have "(i + 1) mod 6 < 6" by simp
    ultimately show "nextPrayer (updateNextPrayer st now now') = Some (prayerOrder ! ((i + 1) mod 6))"
      and "nextPrayer (updateNextPrayer_script st now) = Some (prayerOrder ! ((i + 1) mod 6))"
      using resolved(1,3) by blast+
  }
qed

theorem one_minute_before_and_at_prayer_time_witness:
  "wellformed sample_times \<and> strictly_increasing sample_times
   \<and> updatePrayerTimes st_init (timings_of sample_times) = Inr (loaded sample_times)
   \<and> (2::nat) < 6
   \<and> current_minutes (at_clock 11 59 0) = (minutes_of (sample_times ! 2) + 1439) mod 1440
   \<and> nextPrayer (updateNextPrayer (loaded sample_times) (at_clock 11 59 0) (at_clock 11 59 0))
       = Some (str ''dhuhr'')
   \<and> current_minutes (at_clock 12 0 0) = minutes_of (sample_times ! 2)
   \<and> nextPrayer (updateNextPrayer (loaded sample_times) (at_clock 12 0 0) (at_clock 12 0 0))
       = Some (str ''asr'')"
proof -
  have l: "updatePrayerTimes st_init (timings_of sample_times) = Inr (loaded sample_times)"
    by (rule updatePrayerTimes_loaded) (simp add: sample_times_def)
  have a: "current_minutes (at_clock 11 59 0) = (minutes_of (sample_times ! 2) + 1439) mod 1440"
    by (simp add: current_minutes_def at_clock_def minutes_of_def sample_times_def)
  have b: "current_minutes (at_clock 12 0 0) = minutes_of (sample_times ! 2)"
    by (simp add: current_minutes_def at_clock_def minutes_of_def sample_times_def)
  have two: "(2::nat) < 6" by simp
  show ?thesis
    using one_minute_before_and_at_prayer_time[OF wellformed_sample strictly_increasing_sample l two,
        of "at_clock 11 59 0" "at_clock 11 59 0"]
      one_minute_before_and_at_prayer_time[OF wellformed_sample strictly_increasing_sample l two,
        of "at_clock 12 0 0" "at_clock 12 0 0"]
      wellformed_sample strictly_increasing_sample l a b
    by (simp add: prayerOrder_nth)
qed

text \<open>
  With times that do not decrease but tie, the statement fails: fajr and sunrise both at
  05:00. At 05:00 the prayer after fajr is not selected (dhuhr is), and one minute before
  sunrise's time sunrise is not selected (fajr is).
\<close>

theorem tied_times_counterexample:
  "wellformed tied_times
   \<and> updatePrayerTimes st_init (timings_of tied_times) = Inr (loaded tied_times)
   \<and> prayerTimes (loaded tied_times) (str ''fajr'') = Some (str ''5:00'' @ [32] @ AM)
   \<and> prayerTimes (loaded tied_times) (str ''sunrise'') = Some (str ''5:00'' @ [32] @ AM)
   \<and> prayerTimes (loaded tied_times) (str ''dhuhr'') = Some (str ''12:00'' @ [32] @ PM)
   \<and> current_minutes (at_clock 5 0 0) = minutes_of (tied_times ! 0)
   \<and> nextPrayer (updateNextPrayer (loaded tied_times) (at_clock 5 0 0) (at_clock 5 0 0))
       = Some (str ''dhuhr'')
   \<and> nextPrayer (updateNextPrayer_script (loaded tied_times) (at_clock 5 0 0))
       = Some (str ''dhuhr'')
   \<and> str ''dhuhr'' \<noteq> prayerOrder ! ((0 + 1) mod 6)
   \<and> current_minutes (at_clock 4 59 0) = (minutes_of (tied_times ! 1) + 1439) mod 1440
   \<and> nextPrayer (updateNextPrayer (loaded tied_times) (at_clock 4 59 0) (at_clock 4 59 0))
       = Some (str ''fajr'')
   \<and> str ''fajr'' \<noteq> prayerOrder ! 1"
proof -
  have l: "updatePrayerTimes st_init (timings_of tied_times) = Inr (loaded tied_times)"
    by (rule updatePrayerTimes_loaded) (simp add: tied_times_def)
  note sk = skipped_loaded[OF wellformed_tied l]
  have a: "current_minutes (at_clock 5 0 0) = minutes_of (tied_times ! 0)"
    by (simp add: current_minutes_def at_clock_def minutes_of_def tied_times_def)
  have b: "current_minutes (at_clock 4 59 0) = (minutes_of (tied_times ! 1) + 1439) mod 1440"
    by (simp add: current_minutes_def at_clock_def minutes_of_def tied_times_def)
  have s0: "skipped (prayerTimes (loaded tied_times)) (current_minutes (at_clock 5 0 0))
           (prayerOrder ! 0)"
    by (subst sk) (simp_all add: current_minutes_def at_clock_def minutes_of_def tied_times_def)
  have s1: "skipped (prayerTimes (loaded tied_times)) (current_minutes (at_clock 5 0 0))
           (prayerOrder ! 1)"
    by (subst sk) (simp_all add: current_minutes_def at_clock_def minutes_of_def tied_times_def)
  have "\<forall>j<2. skipped (prayerTimes (loaded tied_times)) (current_minutes (at_clock 5 0 0))
           (prayerOrder ! j)"
    using s0 s1 by (auto simp: less_2_cases_iff)
  moreover have "\<not> skipped (prayerTimes (loaded tied_times)) (current_minutes (at_clock 5 0 0))
           (prayerOrder ! 2)"
    by (subst sk) (simp_all add: current_minutes_def at_clock_def minutes_of_def tied_times_def)
  ultimately have n1: "nextPrayerName (prayerTimes (loaded tied_times)) (at_clock 5 0 0)
      = prayerOrder ! 2"
    using nextPrayerName_at[of 2] by simp
  have "\<not> skipped (prayerTimes (loaded tied_times)) (current_minutes (at_clock 4 59 0))
           (prayerOrder ! 0)"
    by (subst sk) (simp_all add: current_minutes_def at_clock_def minutes_of_def tied_times_def)
  then have n2: "nextPrayerName (prayerTimes (loaded tied_times)) (at_clock 4 59 0)
      = prayerOrder ! 0"
    using nextPrayerName_at[of 0] by simp
  have ne: "str ''dhuhr'' \<noteq> prayerOrder ! ((0 + 1) mod 6)" "str ''fajr'' \<noteq> prayerOrder ! 1"
    by (simp_all add: prayerOrder_def str_def)
  show ?thesis
    using resolved(1,3)[OF n1] resolved(1)[OF n2] wellformed_tied l a b ne tied_entries
    by (simp add: prayerOrder_nth)
qed

section \<open>Missing and malformed entries\<close>

lemma to24h_NaN: "to24h period NaN = NaN"
  by (simp add: to24h_def js_eq_def)

lemma js_add_NaN_right: "js_add x NaN = NaN"
  by (cases x) simp_all

lemma malformed_NaN: "malformed entry \<Longrightarrow> prayerTimeInMinutes entry = NaN"
  by (auto simp: malformed_def prayerTimeInMinutes_def parsePrayerTime_def Let_def to24h_NaN
      ToNumber_def js_add_NaN_right split: option.splits)

lemma unusable_skipped: "unusable pt p \<Longrightarrow> skipped pt ct p"
  by (auto simp: unusable_def skipped_def malformed_NaN js_gt_def split: option.splits)

lemma split_nan_entry:
  "js_split 32 nan_entry = (str ''4:NaN'', [AM])"
  "js_split 58 (str ''4:NaN'') = (str ''4'', [str ''NaN''])"
  by (simp_all add: nan_entry_def str_def AM_def)

lemma parseInt_nan_fields: "parseInt (str ''4'') = Fin 4" "parseInt (str ''NaN'') = NaN"
  by (simp_all add: parseInt_def str_def is_ws_def is_digit_def dec_value_def)

lemma Number_nan_fields: "Number (str ''4'') = Fin 4" "Number (str ''NaN'') = NaN"
  by (simp_all add: Number_def js_trim_def str_def is_ws_def unsigned_decimal_def is_digit_def
      exponent_part_def dec_value_def pow10_def)

lemma formatTime_with_zone: "formatTime (str ''04:31 (EET)'') = Inr nan_entry"
proof -
  have s: "js_split 58 (str ''04:31 (EET)'') = (str ''04'', [str ''31 (EET)''])"
    by (simp add: str_def)
  have h: "Number (str ''04'') = Fin 4"
    by (simp add: Number_def js_trim_def str_def is_ws_def unsigned_decimal_def is_digit_def
        exponent_part_def dec_value_def pow10_def)
  have m: "Number (str ''31 (EET)'') = NaN"
    by (simp add: Number_def js_trim_def str_def is_ws_def unsigned_decimal_def is_digit_def
        exponent_part_def dec_value_def pow10_def)
  have r: "js_rem (Fin 4) (Fin 12) = Fin 4"
    using js_rem_nat[of 12 4] by simp
  have d: "unsigned_toString 4 = str ''4''"
    using unsigned_toString_nat[of 4] by (simp add: digits_small str_def)
  show ?thesis
    by (simp add: formatTime_def s second_def h m r js_ge_def truthy_def d padStart_def
        nan_entry_def del: js_rem.simps) (simp add: str_def)
qed

lemma malformed_nan_entry: "malformed nan_entry"
  by (simp add: malformed_def split_nan_entry second_def Number_nan_fields)

lemma partial_state_entries:
  "prayerTimes partial_state (str ''fajr'') = Some nan_entry"
  "prayerTimes partial_state (str ''sunrise'') = None"
  "prayerTimes partial_state (str ''dhuhr'') = Some (display12h 12 0)"
  by (simp_all add: partial_state_def st_init_def str_def)

lemma broken_state_entries:
  "prayerTimes broken_state (str ''fajr'') = Some nan_entry"
  "prayerTimes broken_state (str ''sunrise'') = Some []"
  "prayerTimes broken_state (str ''dhuhr'') = None"
  "prayerTimes broken_state (str ''asr'') = None"
  "prayerTimes broken_state (str ''maghrib'') = None"
  "prayerTimes broken_state (str ''isha'') = None"
  by (simp_all add: broken_state_def st_init_def str_def)

lemma broken_state_unusable: "list_all (unusable (prayerTimes broken_state)) prayerOrder"
proof -
  have "\<forall>i<6. unusable (prayerTimes broken_state) (prayerOrder ! i)"
  proof (intro allI impI)
    fix i :: nat assume "i < 6"
    from less_6_cases[OF this] show "unusable (prayerTimes broken_state) (prayerOrder ! i)"
      by (elim disjE)
        (simp_all add: unusable_def prayerOrder_nth broken_state_entries malformed_nan_entry)
  qed
  then show ?thesis
    by (simp add: list_all_length prayerOrder_length)
qed

lemma partial_state_next:
  "nextPrayerName (prayerTimes partial_state) (at_clock 3 0 0) = prayerOrder ! 2"
proof -
  let ?ct = "current_minutes (at_clock 3 0 0)"
  have s0: "skipped (prayerTimes partial_state) ?ct (prayerOrder ! 0)"
    by (rule unusable_skipped)
      (simp add: unusable_def prayerOrder_nth partial_state_entries malformed_nan_entry)
  have s1: "skipped (prayerTimes partial_state) ?ct (prayerOrder ! 1)"
    by (rule unusable_skipped) (simp add: unusable_def prayerOrder_nth partial_state_entries)
  have "prayerTimeInMinutes (display12h 12 0) = Fin (of_nat (12 * 60 + 0))"
    by (rule prayerTimeInMinutes_display12h) simp
  then have s2: "\<not> skipped (prayerTimes partial_state) ?ct (prayerOrder ! 2)"
    by (simp add: skipped_def prayerOrder_nth partial_state_entries display12h_nonempty js_gt_def
        current_minutes_def at_clock_def)
  have "\<forall>j<2. skipped (prayerTimes partial_state) ?ct (prayerOrder ! j)"
    using s0 s1 by (auto simp: less_2_cases_iff)
  from nextPrayerName_at[OF _ this s2] show ?thesis by simp
qed

text \<open>
  C8. An identifier whose entry is missing, empty or malformed is never the one the scan
  selects, and unless it is fajr it is not stored as next. When all six identifiers are
  unusable (the empty schedule included) the scan selects nothing and next defaults to
  fajr. The resolver is a total function: there is no error outcome.
\<close>

theorem unusable_entries_are_skipped:
  "(unusable (prayerTimes st) p \<longrightarrow>
      findNext (prayerTimes st) (current_minutes now) prayerOrder \<noteq> Some p
    \<and> (p \<noteq> str ''fajr'' \<longrightarrow>
          nextPrayer (updateNextPrayer st now now') \<noteq> Some p
        \<and> nextPrayer (updateNextPrayer_script st now) \<noteq> Some p))
   \<and> (list_all (unusable (prayerTimes st)) prayerOrder \<longrightarrow>
          findNext (prayerTimes st) (current_minutes now) prayerOrder = None
        \<and> nextPrayer (updateNextPrayer st now now') = Some (str ''fajr'')
        \<and> nextPrayer (updateNextPrayer_script st now) = Some (str ''fajr''))"
proof (intro conjI impI)
  let ?f = "findNext (prayerTimes st) (current_minutes now) prayerOrder"
  {
    assume u: "unusable (prayerTimes st) p"
    show nf: "?f \<noteq> Some p"
      using findNext_Some[of "prayerTimes st" "current_minutes now" prayerOrder p]
        unusable_skipped[OF u] by blast
    assume "p \<noteq> str ''fajr''"
    with nf have "nextPrayerName (prayerTimes st) now \<noteq> p"
      by (auto simp: nextPrayerName_def current_minutes_def split: option.splits if_splits)
    then show "nextPrayer (updateNextPrayer st now now') \<noteq> Some p"
      and "nextPrayer (updateNextPrayer_script st now) \<noteq> Some p"
      by (simp_all add: updateNextPrayer_result updateNextPrayer_script_result)
  }
  {
    assume "list_all (unusable (prayerTimes st)) prayerOrder"
    then have "\<forall>q \<in> set prayerOrder. unusable (prayerTimes st) q"
      by (simp add: list_all_iff)
    then have "\<forall>q \<in> set prayerOrder. skipped (prayerTimes st) (current_minutes now) q"
      using unusable_skipped by blast
    then show n: "?f = None" by (rule findNext_None)
    then have "nextPrayerName (prayerTimes st) now = str ''fajr''"
      by (simp add: nextPrayerName_def current_minutes_def)
    then show "nextPrayer (updateNextPrayer st now now') = Some (str ''fajr'')"
      and "nextPrayer (updateNextPrayer_script st now) = Some (str ''fajr'')"
      by (simp_all add: updateNextPrayer_result updateNextPrayer_script_result)
  }
qed

theorem unusable_entries_are_skipped_witness:
  "unusable (prayerTimes partial_state) (str ''sunrise'')
   \<and> findNext (prayerTimes partial_state) (current_minutes (at_clock 3 0 0)) prayerOrder
       \<noteq> Some (str ''sunrise'')
   \<and> str ''sunrise'' \<noteq> str ''fajr''
   \<and> nextPrayer (updateNextPrayer partial_state (at_clock 3 0 0) (at_clock 3 0 0))
       \<noteq> Some (str ''sunrise'')
   \<and> nextPrayer (updateNextPrayer_script partial_state (at_clock 3 0 0)) \<noteq> Some (str ''sunrise'')
   \<and> list_all (unusable (prayerTimes broken_state)) prayerOrder
   \<and> findNext (prayerTimes broken_state) (current_minutes (at_clock 3 0 0)) prayerOrder = None
   \<and> nextPrayer (updateNextPrayer broken_state (at_clock 3 0 0) (at_clock 3 0 0))
       = Some (str ''fajr'')
   \<and> nextPrayer (updateNextPrayer_script broken_state (at_clock 3 0 0)) = Some (str ''fajr'')"
proof -
  have u: "unusable (prayerTimes partial_state) (str ''sunrise'')"
    by (simp add: unusable_def partial_state_entries)
  have ne: "str ''sunrise'' \<noteq> str ''fajr''" by (simp add: str_def)
  show ?thesis
    using unusable_entries_are_skipped[of partial_state "str ''sunrise''" "at_clock 3 0 0"
        "at_clock 3 0 0"]
      unusable_entries_are_skipped[of broken_state "str ''sunrise''" "at_clock 3 0 0"
        "at_clock 3 0 0"]
      u ne broken_state_unusable
    by simp
qed

text \<open>
  C10. Whatever the schedule and the clock, the stored next prayer is one of the six
  identifiers of \<open>prayerOrder\<close> and the highlighted card is its predecessor in that order,
  isha for fajr. The witness is a state where the highlighted prayer, sunrise, has no
  entry.
\<close>

theorem next_and_current_closed:
  "\<exists>i<6. nextPrayer (updateNextPrayer st now now') = Some (prayerOrder ! i)
        \<and> active (updateNextPrayer st now now') = [prayerOrder ! ((i + 5) mod 6)]
        \<and> nextPrayer (updateNextPrayer_script st now) = Some (prayerOrder ! i)
        \<and> active (updateNextPrayer_script st now) = [prayerOrder ! ((i + 5) mod 6)]"
proof -
  obtain i where i: "i < 6" "nextPrayerName (prayerTimes st) now = prayerOrder ! i"
    using nextPrayerName_mem[of "prayerTimes st" now]
    by (auto simp: in_set_conv_nth prayerOrder_length)
  from resolved[OF i(2,1)] i(1) show ?thesis by blast
qed

theorem next_and_current_closed_witness:
  "nextPrayer (updateNextPrayer partial_state (at_clock 3 0 0) (at_clock 3 0 0))
     = Some (str ''dhuhr'')
   \<and> active (updateNextPrayer partial_state (at_clock 3 0 0) (at_clock 3 0 0)) = [str ''sunrise'']
   \<and> prayerTimes partial_state (str ''sunrise'') = None"
proof -
  obtain i where i: "i < 6"
    "nextPrayer (updateNextPrayer partial_state (at_clock 3 0 0) (at_clock 3 0 0))
       = Some (prayerOrder ! i)"
    "active (updateNextPrayer partial_state (at_clock 3 0 0) (at_clock 3 0 0))
       = [prayerOrder ! ((i + 5) mod 6)]"
    using next_and_current_closed[of partial_state "at_clock 3 0 0" "at_clock 3 0 0"] by blast
  have "prayerOrder ! i = prayerOrder ! 2"
    using i(2) partial_state_next by (simp add: updateNextPrayer_result)
  then have "i = 2"
    using i(1) prayerOrder_distinct by (simp add: nth_eq_iff_index_eq prayerOrder_length)
  with i(2,3) partial_state_entries(2) show ?thesis by (simp add: prayerOrder_nth)
qed

section \<open>The countdown tick\<close>

lemma formatTimeRemaining_nat: "formatTimeRemaining (Fin (of_nat r)) = hhmmss r"
proof -
  have a: "js_floor (js_div (Fin (of_nat r)) (Fin 3600)) = Fin (of_nat (r div 3600))"
    using js_div_floor_nat[of 3600 r] by simp
  have b: "js_rem (Fin (of_nat r)) (Fin 3600) = Fin (of_nat (r mod 3600))"
    using js_rem_nat[of 3600 r] by simp
  have c: "js_floor (js_div (Fin (of_nat (r mod 3600))) (Fin 60)) = Fin (of_nat (r mod 3600 div 60))"
    using js_div_floor_nat[of 60 "r mod 3600"] by simp
  have d: "js_rem (Fin (of_nat r)) (Fin 60) = Fin (of_nat (r mod 60))"
    using js_rem_nat[of 60 r] by simp
  show ?thesis
    by (simp only: formatTimeRemaining_def Let_def a b c d toString_nat hhmmss_def)
qed

lemma seconds_left_bound:
  assumes "h < 24" and "m < 60" and "valid_clock now"
  shows "seconds_left h m now \<le> 86399"
proof -
  have "h * 3600 + m * 60 \<le> 86340" using assms(1,2) by simp
  moreover have "getHours now * 3600 + getMinutes now * 60 + getSeconds now \<le> 86399"
    using assms(3) by (simp add: valid_clock_def)
  ultimately show ?thesis by (auto simp: seconds_left_def Let_def)
qed

lemma tick_on_entry:
  assumes "h < 24" and "valid_clock now"
    and "nextPrayer st = Some name" and "prayerTimes st name = Some (display12h h m)"
  shows "updateCountdown st now
         = (True, st\<lparr>events := events st @ [Tick], countdown := hhmmss (seconds_left h m now)\<rparr>)"
  using assms timeRemaining_display12h[of h now m]
  by (simp add: updateCountdown_def valid_clock_def display12h_nonempty formatTimeRemaining_nat
      del: of_nat_add of_nat_mult)

lemma in_window:
  "js_le (Fin (of_nat r)) (Fin 60) = (r \<le> 60)" "js_gt (Fin (of_nat r)) (Fin 0) = (0 < r)"
  by (auto simp: js_le_def js_ge_def js_gt_def)

lemma tick_script_on_entry:
  assumes "h < 24" and "valid_clock now"
    and "nextPrayer st = Some name" and "prayerTimes st name = Some (display12h h m)"
  shows "updateCountdown_script st now
         = (True, st\<lparr>events := events st @ [Tick]
                        @ (if 0 < seconds_left h m now \<and> seconds_left h m now \<le> 60
                              \<and> isAudioEnabled st then [PlayAthan] else []),
                      countdown := hhmmss (seconds_left h m now)\<rparr>)"
proof -
  have t: "timeRemaining (display12h h m) now = Some (Fin (of_nat (seconds_left h m now)))"
    using timeRemaining_display12h[of h now m] assms(1,2) by (simp add: valid_clock_def)
  show ?thesis
    using assms(3,4)
    by (simp add: updateCountdown_script_def display12h_nonempty t formatTimeRemaining_nat
        playAthan_script_def in_window Let_def del: of_nat_add of_nat_mult)
qed

lemma hhmmss_420: "hhmmss 420 = str ''00:07:00''"
  by (simp add: hhmmss_def digits_small padStart_def str_def)

text \<open>
  C6. On a formatted entry for the target \<open>h:m\<close> and a clock reading \<open>now\<close>, the tick
  computes target seconds minus current seconds, adds 86400 when that is negative
  (\<open>seconds_left\<close>), succeeds, and shows the result as zero-padded \<open>HH:MM:SS\<close>. The
  witness is the target 00:05 at 23:58:00: 420 seconds, shown as \<open>00:07:00\<close>.
\<close>

theorem tick_shows_time_to_target:
  assumes "h < 24" and "m < 60" and "valid_clock now"
    and "formatTime (time24 h m) = Inr entry"
    and "nextPrayer st = Some name" and "prayerTimes st name = Some entry"
  shows "timeRemaining entry now = Some (Fin (of_nat (seconds_left h m now)))
       \<and> fst (updateCountdown st now) = True
       \<and> countdown (snd (updateCountdown st now)) = hhmmss (seconds_left h m now)
       \<and> fst (updateCountdown_script st now) = True
       \<and> countdown (snd (updateCountdown_script st now)) = hhmmss (seconds_left h m now)"
proof -
  have e: "entry = display12h h m" using assms(4) by (rule entry_is_display12h)
  have v: "getHours now < 24" "getMinutes now < 60" "getSeconds now < 60"
    using assms(3) by (simp_all add: valid_clock_def)
  show ?thesis
    using timeRemaining_display12h[OF assms(1) v, of m]
      tick_on_entry[OF assms(1,3,5) assms(6)[unfolded e]]
      tick_script_on_entry[OF assms(1,3,5) assms(6)[unfolded e]]
    by (simp add: e)
qed

theorem tick_shows_time_to_target_witness:
  "(0::nat) < 24 \<and> (5::nat) < 60 \<and> valid_clock (at_clock 23 58 0)
   \<and> formatTime (time24 0 5) = Inr (display12h 0 5)
   \<and> nextPrayer midnight_state = Some (str ''fajr'')
   \<and> prayerTimes midnight_state (str ''fajr'') = Some (display12h 0 5)
   \<and> timeRemaining (display12h 0 5) (at_clock 23 58 0) = Some (Fin 420)
   \<and> fst (updateCountdown midnight_state (at_clock 23 58 0)) = True
   \<and> countdown (snd (updateCountdown midnight_state (at_clock 23 58 0))) = str ''00:07:00''
   \<and> countdown (snd (updateCountdown_script midnight_state (at_clock 23 58 0))) = str ''00:07:00''"
proof -
  have v: "valid_clock (at_clock 23 58 0)" by (simp add: valid_clock_def at_clock_def)
  note n = midnight_state_fields(1) and p = midnight_state_fields(2)
  have s: "seconds_left 0 5 (at_clock 23 58 0) = 420"
    by (simp add: seconds_left_def at_clock_def)
  have z: "(0::nat) < 24" "(5::nat) < 60" by simp_all
  show ?thesis
    using tick_shows_time_to_target[OF z v formatTime_display12h n p] v n p
    by (simp add: s hhmmss_420 formatTime_display12h)
qed

lemma fields_display12h:
  "hourField (display12h h m) = digits (hours12 h)"
  "minuteField (display12h h m) = Some (padStart 2 48 (digits m))"
  by (simp_all add: hourField_def minuteField_def split_display12h split_time second_def)

lemma to24h_nat: "to24h period (Fin (of_nat h)) = Fin (of_nat (hour24 period h))"
  by (auto simp: to24h_def hour24_def js_eq_def Let_def PM_def AM_def)

lemma hour24_bound: "h < 24 \<Longrightarrow> hour24 period h < 24"
  by (auto simp: hour24_def)

lemma timeRemaining_parsed:
  assumes "parseInt (hourField entry) = Fin (of_nat h)"
    and "parseInt_opt (minuteField entry) = Fin (of_nat m)"
    and "valid_clock now"
  shows "timeRemaining entry now
         = Some (Fin (of_nat (seconds_left (hour24 (second (js_split 32 entry)) h) m now)))"
proof -
  define c where "c = getHours now * 3600 + getMinutes now * 60 + getSeconds now"
  define t where "t = hour24 (second (js_split 32 entry)) h * 3600 + m * 60"
  have c: "c < 86400" using assms(3) by (simp add: c_def valid_clock_def)
  have eq: "timeRemaining entry now =
      Some (let r = js_sub (Fin (of_nat t)) (Fin (of_nat c))
            in if js_lt r (Fin 0) then js_add r (Fin 86400) else r)"
    using assms(1,2)
    by (simp add: timeRemaining_def hourField_def minuteField_def isNaN_def Let_def to24h_nat
        c_def t_def)
  have r: "js_sub (Fin (of_nat t)) (Fin (of_nat c)) = Fin (of_int (int t - int c))"
    by (simp add: js_sub_def)
  have sl: "seconds_left (hour24 (second (js_split 32 entry)) h) m now
            = (if t < c then t + 86400 - c else t - c)"
    by (simp add: seconds_left_def c_def t_def)
  show ?thesis
  proof (cases "t < c")
    case True
    then have "int t - int c < 0" by simp
    moreover have "of_int (int t - int c) + (86400::rat) = of_nat (t + 86400 - c)"
      using c by (simp add: of_nat_diff)
    ultimately show ?thesis using True by (simp add: eq r sl del: of_int_diff)
  next
    case False
    then have "\<not> int t - int c < 0" by simp
    moreover have "(of_int (int t - int c) :: rat) = of_nat (t - c)"
      using False by (simp add: of_nat_diff)
    ultimately show ?thesis using False by (simp add: eq r sl del: of_int_diff)
  qed
qed

lemma parsed_nonempty:
  assumes "parseInt (hourField entry) = Fin x"
  shows "entry \<noteq> []"
proof
  assume "entry = []"
  then have "parseInt (hourField entry) = NaN" by (simp add: hourField_def parseInt_def)
  with assms show False by simp
qed

text \<open>
  C9. Take any entry whose hour field reads (with \<open>parseInt\<close>) as an hour from 0 to 23
  and whose minute field reads as a minute from 0 to 59, and any valid clock reading. The
  value that the tick passes to \<open>formatTimeRemaining\<close> after the next-day adjustment is
  then a whole number of seconds between 0 and 86399, so the formatter never sees a
  negative number. For the tick of either file.
\<close>

theorem remaining_passed_to_formatter_in_range:
  assumes "parseInt (hourField entry) = Fin (of_nat h)"
    and "parseInt_opt (minuteField entry) = Fin (of_nat m)"
    and "h < 24" and "m < 60" and "valid_clock now"
    and "nextPrayer st = Some name" and "prayerTimes st name = Some entry"
  shows "\<exists>r. timeRemaining entry now = Some (Fin (of_nat r)) \<and> r \<le> 86399
           \<and> updateCountdown st now
               = (True, st\<lparr>events := events st @ [Tick], countdown := formatTimeRemaining (Fin (of_nat r))\<rparr>)
           \<and> fst (updateCountdown_script st now) = True
           \<and> countdown (snd (updateCountdown_script st now)) = formatTimeRemaining (Fin (of_nat r))"
proof -
  let ?r = "seconds_left (hour24 (second (js_split 32 entry)) h) m now"
  have t: "timeRemaining entry now = Some (Fin (of_nat ?r))"
    by (rule timeRemaining_parsed[OF assms(1,2,5)])
  have b: "?r \<le> 86399"
    by (rule seconds_left_bound[OF hour24_bound[OF assms(3)] assms(4,5)])
  have ne: "entry \<noteq> []" by (rule parsed_nonempty[OF assms(1)])
  have u: "updateCountdown st now
      = (True, st\<lparr>events := events st @ [Tick], countdown := formatTimeRemaining (Fin (of_nat ?r))\<rparr>)"
    using assms(6,7) ne by (simp add: updateCountdown_def t)
  have s: "fst (updateCountdown_script st now) = True
      \<and> countdown (snd (updateCountdown_script st now)) = formatTimeRemaining (Fin (of_nat ?r))"
    using assms(6,7) ne
    by (simp add: updateCountdown_script_def t playAthan_script_def Let_def)
  from t b u s show ?thesis by blast
qed

theorem remaining_passed_to_formatter_in_range_witness:
  "parseInt (hourField (display12h 0 5)) = Fin (of_nat 12)
   \<and> parseInt_opt (minuteField (display12h 0 5)) = Fin (of_nat 5)
   \<and> (12::nat) < 24 \<and> (5::nat) < 60 \<and> valid_clock (at_clock 23 58 0)
   \<and> nextPrayer midnight_state = Some (str ''fajr'')
   \<and> prayerTimes midnight_state (str ''fajr'') = Some (display12h 0 5)
   \<and> timeRemaining (display12h 0 5) (at_clock 23 58 0) = Some (Fin 420)
   \<and> (420::nat) \<le> 86399"
proof -
  have h12: "hours12 0 = 12" by (simp add: hours12_def)
  have hf: "parseInt (hourField (display12h 0 5)) = Fin (of_nat 12)"
    using parseInt_digits[of "digits (hours12 0)"] digits_all digits_nonempty
    by (simp add: fields_display12h dec_value_digits) (simp add: h12)
  have mf: "parseInt_opt (minuteField (display12h 0 5)) = Fin (of_nat 5)"
    using parseInt_digits[of "padStart 2 48 (digits 5)"] pad2_all pad2_nonempty
    by (simp add: fields_display12h parseInt_opt_def dec_value_pad2)
  have v: "valid_clock (at_clock 23 58 0)" by (simp add: valid_clock_def at_clock_def)
  note n = midnight_state_fields(1) and p = midnight_state_fields(2)
  have z: "(12::nat) < 24" "(5::nat) < 60" by simp_all
  have t: "timeRemaining (display12h 0 5) (at_clock 23 58 0) = Some (Fin 420)"
    using timeRemaining_display12h[of 0 "at_clock 23 58 0" 5]
    by (simp add: at_clock_def seconds_left_def)
  from remaining_passed_to_formatter_in_range[OF hf mf z v n p]
  obtain r where "timeRemaining (display12h 0 5) (at_clock 23 58 0) = Some (Fin (of_nat r))"
    and "r \<le> 86399" by blast
  with t have "(420::nat) \<le> 86399" by simp
  with hf mf v n p t show ?thesis by simp
qed

lemma missing_entry_shows_sentinel:
  assumes "nextPrayer st = None \<or> (\<exists>name. nextPrayer st = Some name
             \<and> (prayerTimes st name = None \<or> prayerTimes st name = Some []))"
  shows "updateCountdown st now = (False, st\<lparr>events := events st @ [Tick], countdown := sentinel\<rparr>)"
    and "updateCountdown_script st now = (False, st\<lparr>events := events st @ [Tick], countdown := sentinel\<rparr>)"
  using assms by (auto simp: updateCountdown_def updateCountdown_script_def)

section \<open>The athan threshold\<close>

lemma athan_plays_tick:
  assumes "h < 24" and "valid_clock now"
    and "nextPrayer st = Some name" and "prayerTimes st name = Some (display12h h m)"
  shows "athan_plays (snd (updateCountdown_script st now))
         = athan_plays st + (if 0 < seconds_left h m now \<and> seconds_left h m now \<le> 60
                               \<and> isAudioEnabled st then 1 else 0)"
    and "athan_plays (snd (updateCountdown st now)) = athan_plays st"
  by (simp_all add: tick_script_on_entry[OF assms] tick_on_entry[OF assms] athan_plays_def)

lemma athan_plays_ticks:
  assumes "h < 24" and "list_all valid_clock clocks"
    and "nextPrayer st = Some name" and "prayerTimes st name = Some (display12h h m)"
  shows "athan_plays (ticks updateCountdown_script st clocks)
         = athan_plays st
           + (if isAudioEnabled st
              then length (filter (\<lambda>now. 0 < seconds_left h m now \<and> seconds_left h m now \<le> 60) clocks)
              else 0)"
    and "athan_plays (ticks updateCountdown st clocks) = athan_plays st"
  using assms(2-)
proof (induction clocks arbitrary: st)
  case Nil
  { case 1 show ?case by simp }
  { case 2 show ?case by simp }
next
  case (Cons now clocks)
  { case 1
    have v: "valid_clock now" "list_all valid_clock clocks" using 1(1) by simp_all
    let ?st = "snd (updateCountdown_script st now)"
    have "athan_plays (ticks updateCountdown_script ?st clocks)
          = athan_plays ?st
            + (if isAudioEnabled ?st
               then length (filter (\<lambda>now. 0 < seconds_left h m now \<and> seconds_left h m now \<le> 60) clocks)
               else 0)"
      using 1(2,3) by (intro Cons.IH(1)[OF v(2)]) (simp_all add: updateCountdown_script_frame)
    then show ?case
      using athan_plays_tick(1)[OF assms(1) v(1) 1(2,3)]
      by (simp add: updateCountdown_script_frame) }
  { case 2
    have v: "valid_clock now" "list_all valid_clock clocks" using 2(1) by simp_all
    let ?st = "snd (updateCountdown st now)"
    have "athan_plays (ticks updateCountdown ?st clocks) = athan_plays ?st"
      using 2(2,3) by (intro Cons.IH(2)[OF v(2)]) (simp_all add: updateCountdown_frame)
    then show ?case
      using athan_plays_tick(2)[OF assms(1) v(1) 2(2,3)] by simp }
qed

lemma audio_state_fields:
  "nextPrayer audio_state = Some (str ''fajr'')"
  "prayerTimes audio_state (str ''fajr'') = Some (display12h 4 31)"
  "isAudioEnabled audio_state" "athan_plays audio_state = 0"
proof -
  have "length sample_times = 6" by (simp add: sample_times_def)
  from loaded_fajr[OF this]
  show "prayerTimes audio_state (str ''fajr'') = Some (display12h 4 31)"
    by (simp add: audio_state_def sample_times_def)
  show "nextPrayer audio_state = Some (str ''fajr'')" "isAudioEnabled audio_state"
    "athan_plays audio_state = 0"
    by (simp_all add: audio_state_def loaded_def st_init_def athan_plays_def)
qed

lemma valid_at_clock: "h < 24 \<Longrightarrow> m < 60 \<Longrightarrow> s < 60 \<Longrightarrow> valid_clock (at_clock h m s)"
  by (simp add: valid_clock_def at_clock_def)

text \<open>
  C1, as amended. The tick of the single-file script keeps no record of having played:
  with the audio flag set, every tick whose remaining seconds lie in \<open>(0, 60]\<close> plays the
  athan, and no other tick does. Over a run of ticks on a formatted entry the number of
  plays grows by the number of ticks inside that window, and by nothing when the flag is
  off.
\<close>

theorem athan_played_on_every_tick_in_window:
  assumes "h < 24" and "m < 60" and "formatTime (time24 h m) = Inr entry"
    and "nextPrayer st = Some name" and "prayerTimes st name = Some entry"
    and "list_all valid_clock clocks"
  shows "athan_plays (ticks updateCountdown_script st clocks)
         = athan_plays st
           + (if isAudioEnabled st
              then length (filter (\<lambda>now. 0 < seconds_left h m now \<and> seconds_left h m now \<le> 60) clocks)
              else 0)"
proof -
  have e: "entry = display12h h m" using assms(3) by (rule entry_is_display12h)
  show ?thesis
    using athan_plays_ticks(1)[OF assms(1,6,4) assms(5)[unfolded e]] by simp
qed

theorem athan_played_on_every_tick_in_window_witness:
  "(4::nat) < 24 \<and> (31::nat) < 60 \<and> formatTime (time24 4 31) = Inr (display12h 4 31)
   \<and> nextPrayer audio_state = Some (str ''fajr'')
   \<and> prayerTimes audio_state (str ''fajr'') = Some (display12h 4 31)
   \<and> list_all valid_clock
        [at_clock 4 29 58, at_clock 4 29 59, at_clock 4 30 0, at_clock 4 30 30, at_clock 4 30 59,
         at_clock 4 31 0]
   \<and> athan_plays (ticks updateCountdown_script audio_state
        [at_clock 4 29 58, at_clock 4 29 59, at_clock 4 30 0, at_clock 4 30 30, at_clock 4 30 59,
         at_clock 4 31 0]) = 3"
proof -
  let ?cs = "[at_clock 4 29 58, at_clock 4 29 59, at_clock 4 30 0, at_clock 4 30 30,
              at_clock 4 30 59, at_clock 4 31 0]"
  have v: "list_all valid_clock ?cs" by (simp add: valid_at_clock)
  have z: "(4::nat) < 24" "(31::nat) < 60" by simp_all
  have w: "length (filter (\<lambda>now. 0 < seconds_left 4 31 now \<and> seconds_left 4 31 now \<le> 60) ?cs) = 3"
    by (simp add: seconds_left_def at_clock_def)
  show ?thesis
    using athan_played_on_every_tick_in_window[OF z formatTime_display12h audio_state_fields(1,2) v]
      v audio_state_fields formatTime_display12h[of 4 31]
    by (simp only: w) simp
qed

text \<open>
  The claim as written fails. Three ticks with 61, 60 and 59 seconds left and the audio
  flag set: the script plays the athan twice, at 60 and again at 59. The tick of the ui
  module is the tick of the script without lines 448 to 451, so on the same ticks it
  plays nothing, which is not once per crossing either.
\<close>

theorem athan_replayed_counterexample:
  "seconds_left 4 31 (at_clock 4 29 59) = 61
   \<and> seconds_left 4 31 (at_clock 4 30 0) = 60
   \<and> seconds_left 4 31 (at_clock 4 30 1) = 59
   \<and> isAudioEnabled audio_state
   \<and> nextPrayer audio_state = Some (str ''fajr'')
   \<and> prayerTimes audio_state (str ''fajr'') = Some (str ''4:31'' @ [32] @ AM)
   \<and> athan_plays (ticks updateCountdown_script audio_state
        [at_clock 4 29 59, at_clock 4 30 0, at_clock 4 30 1]) = 2
   \<and> athan_plays (ticks updateCountdown audio_state
        [at_clock 4 29 59, at_clock 4 30 0, at_clock 4 30 1]) = 0"
proof -
  let ?cs = "[at_clock 4 29 59, at_clock 4 30 0, at_clock 4 30 1]"
  have v: "list_all valid_clock ?cs" by (simp add: valid_at_clock)
  have s: "seconds_left 4 31 (at_clock 4 29 59) = 61" "seconds_left 4 31 (at_clock 4 30 0) = 60"
    "seconds_left 4 31 (at_clock 4 30 1) = 59"
    by (simp_all add: seconds_left_def at_clock_def)
  have five: "(4::nat) < 24" by simp
  have d: "display12h 4 31 = str ''4:31'' @ [32] @ AM"
    by (simp add: display12h_def hours12_def digits_small digits_two padStart_def period_of_def
        str_def)
  show ?thesis
    using athan_plays_ticks[OF five v audio_state_fields(1,2)] audio_state_fields s
    by (simp add: d)
qed

section \<open>The timer of the ticker\<close>

lemma countdown_timers_clear:
  "countdown_timers (clearInterval h st) = filter (\<lambda>t. fst t \<noteq> h) (countdown_timers st)"
  by (simp add: countdown_timers_def clearInterval_def) (metis (mono_tags, lifting) filter_cong)

lemma ticker_ok_handle:
  assumes "ticker_ok st" and "countdownInterval st = Some h"
  shows "0 < h"
proof -
  have "(h, Interval UpdateCountdown 1000) \<in> set (countdown_timers st)"
    using assms by (simp add: ticker_ok_def)
  then have "(h, Interval UpdateCountdown 1000) \<in> set (timers st)"
    by (simp add: countdown_timers_def)
  then show ?thesis using assms(1) by (auto simp: ticker_ok_def list_all_iff)
qed

lemma cleared_facts:
  assumes "ticker_ok st"
  shows "countdown_timers (cleared st) = []"
    and "next_handle (cleared st) = next_handle st"
    and "list_all (\<lambda>t. 0 < fst t \<and> fst t < next_handle st) (timers (cleared st))"
    and "events (cleared st)
         = events st @ (case countdownInterval st of None \<Rightarrow> [] | Some h \<Rightarrow> [ClearInterval h])"
proof -
  show "countdown_timers (cleared st) = []"
  proof (cases "countdownInterval st")
    case None
    with assms show ?thesis by (simp add: cleared_def ticker_ok_def)
  next
    case (Some h)
    with assms ticker_ok_handle[OF assms Some] show ?thesis
      by (simp add: cleared_def ticker_ok_def countdown_timers_clear)
  qed
  show "next_handle (cleared st) = next_handle st"
    by (simp add: cleared_def clearInterval_def split: option.splits)
  show "list_all (\<lambda>t. 0 < fst t \<and> fst t < next_handle st) (timers (cleared st))"
    using assms
    by (auto simp: cleared_def clearInterval_def ticker_ok_def list_all_iff split: option.splits)
  show "events (cleared st)
         = events st @ (case countdownInterval st of None \<Rightarrow> [] | Some h \<Rightarrow> [ClearInterval h])"
    using ticker_ok_handle[OF assms]
    by (auto simp: cleared_def clearInterval_def split: option.splits)
qed

lemma startCountdown_with_cleared:
  "startCountdown_with tick st now =
     (let st2 = snd (tick (cleared st) now)
      in st2\<lparr>timers := timers st2 @ [(next_handle st2, Interval UpdateCountdown 1000)],
             next_handle := Suc (next_handle st2),
             events := events st2 @ [SetInterval (next_handle st2)],
             countdownInterval := Some (next_handle st2)\<rparr>)"
  by (simp add: startCountdown_with_def cleared_def setInterval_def Let_def split: option.splits)

lemma tick_frame:
  assumes "tick = updateCountdown \<or> tick = updateCountdown_script"
  shows "timers (snd (tick s now)) = timers s"
    and "next_handle (snd (tick s now)) = next_handle s"
    and "\<exists>mid. events (snd (tick s now)) = events s @ Tick # mid \<and> set mid \<subseteq> {PlayAthan}"
  using assms
  by (auto simp: updateCountdown_def updateCountdown_script_def playAthan_script_def Let_def
      split: option.splits)

lemma start_facts:
  assumes "ticker_ok st" and "tick = updateCountdown \<or> tick = updateCountdown_script"
  shows "ticker_ok (startCountdown_with tick st now)"
    and "countdownInterval (startCountdown_with tick st now) = Some (next_handle st)"
    and "countdown_timers (startCountdown_with tick st now)
         = [(next_handle st, Interval UpdateCountdown 1000)]"
    and "\<exists>mid. events (startCountdown_with tick st now)
           = events st @ (case countdownInterval st of None \<Rightarrow> [] | Some h \<Rightarrow> [ClearInterval h])
             @ Tick # mid @ [SetInterval (next_handle st)]
           \<and> set mid \<subseteq> {PlayAthan}"
proof -
  let ?c = "cleared st"
  let ?s2 = "snd (tick ?c now)"
  have t: "timers ?s2 = timers ?c" and n: "next_handle ?s2 = next_handle st"
    using tick_frame(1,2)[OF assms(2)] cleared_facts(2)[OF assms(1)] by simp_all
  obtain mid where mid: "events ?s2 = events ?c @ Tick # mid" "set mid \<subseteq> {PlayAthan}"
    using tick_frame(3)[OF assms(2)] by blast
  have ct: "countdown_timers ?s2 = []"
    using cleared_facts(1)[OF assms(1)] t by (simp add: countdown_timers_def)
  show "countdownInterval (startCountdown_with tick st now) = Some (next_handle st)"
    by (simp add: startCountdown_with_cleared Let_def n)
  show c: "countdown_timers (startCountdown_with tick st now)
         = [(next_handle st, Interval UpdateCountdown 1000)]"
    using ct by (simp add: startCountdown_with_cleared Let_def n countdown_timers_def)
  have "list_all (\<lambda>t. 0 < fst t \<and> fst t < Suc (next_handle st)) (timers ?c)"
    using cleared_facts(3)[OF assms(1)] by (auto simp: list_all_iff)
  moreover have "0 < next_handle st" using assms(1) by (simp add: ticker_ok_def)
  ultimately show "ticker_ok (startCountdown_with tick st now)"
    using c by (simp add: ticker_ok_def) (simp add: startCountdown_with_cleared Let_def n t)
  show "\<exists>mid. events (startCountdown_with tick st now)
           = events st @ (case countdownInterval st of None \<Rightarrow> [] | Some h \<Rightarrow> [ClearInterval h])
             @ Tick # mid @ [SetInterval (next_handle st)]
           \<and> set mid \<subseteq> {PlayAthan}"
    using mid cleared_facts(4)[OF assms(1)]
    by (simp add: startCountdown_with_cleared Let_def n)
qed

lemma cleanup_facts:
  assumes "ticker_ok st"
  shows "ticker_ok (cleanupUI st)" and "countdown_timers (cleanupUI st) = []"
proof -
  have eq: "cleanupUI st = (cleared st)\<lparr>countdownInterval := None\<rparr>"
    using ticker_ok_handle[OF assms]
    by (auto simp: cleanupUI_def cleared_def split: option.splits)
  show "countdown_timers (cleanupUI st) = []"
    using cleared_facts(1)[OF assms] by (simp add: eq countdown_timers_def)
  then show "ticker_ok (cleanupUI st)"
    using cleared_facts(2,3)[OF assms] assms by (simp add: ticker_ok_def) (simp add: eq)
qed

lemma run_ops_ok:
  assumes "tick = updateCountdown \<or> tick = updateCountdown_script"
  shows "ticker_ok st \<Longrightarrow> ticker_ok (run_ops tick st ops)"
proof (induction ops arbitrary: st)
  case Nil
  then show ?case by simp
next
  case (Cons op ops)
  then show ?case
    by (cases op) (simp_all add: start_facts(1)[OF _ assms] cleanup_facts(1))
qed

lemma run_ops_append: "run_ops tick st (ops @ ops') = run_ops tick (run_ops tick st ops) ops'"
proof (induction ops arbitrary: st)
  case Nil
  then show ?case by simp
next
  case (Cons op ops)
  then show ?case by (cases op) simp_all
qed

lemma ticker_ok_at_most_one: "ticker_ok st \<Longrightarrow> length (countdown_timers st) \<le> 1"
  by (simp add: ticker_ok_def split: option.splits)

lemma ticker_ok_minute_timer_state: "ticker_ok minute_timer_state"
  by (simp add: ticker_ok_def minute_timer_state_def st_init_def countdown_timers_def)

lemma two_starts:
  "countdownInterval (run_ops updateCountdown minute_timer_state
      [Start (at_clock 4 0 0), Start (at_clock 4 0 1)]) = Some 3"
  "timers (run_ops updateCountdown minute_timer_state
      [Start (at_clock 4 0 0), Start (at_clock 4 0 1)])
     = [(1, Interval UpdateDateTime 60000), (3, Interval UpdateCountdown 1000)]"
  "events (startCountdown_with updateCountdown minute_timer_state (at_clock 4 0 0))
     = [Tick, SetInterval 2]"
  by (simp_all add: startCountdown_with_def minute_timer_state_def st_init_def updateCountdown_def
      setInterval_def clearInterval_def Let_def)

text \<open>
  C7. From a state that satisfies the handle invariant, after any sequence of starts and
  stops at most one repeating countdown timer is live; after a sequence that ends with a
  start exactly one is, the one \<open>countdownInterval\<close> names. A start cancels the old
  handle (if any), then makes one tick, then schedules the repetition, in that order. For
  the \<open>startCountdown\<close> of either file.
\<close>

theorem one_repeating_timer_after_start:
  assumes "ticker_ok st" and "tick = updateCountdown \<or> tick = updateCountdown_script"
  shows "length (countdown_timers (run_ops tick st ops)) \<le> 1
       \<and> (\<exists>h. countdownInterval (run_ops tick st (ops @ [Start now])) = Some h
              \<and> countdown_timers (run_ops tick st (ops @ [Start now]))
                  = [(h, Interval UpdateCountdown 1000)])
       \<and> (\<exists>mid. events (startCountdown_with tick st now)
                   = events st
                     @ (case countdownInterval st of None \<Rightarrow> [] | Some h \<Rightarrow> [ClearInterval h])
                     @ Tick # mid @ [SetInterval (next_handle st)]
                 \<and> set mid \<subseteq> {PlayAthan})"
proof -
  note f = assms(2)
  have ok: "ticker_ok (run_ops tick st ops)" by (rule run_ops_ok[OF f assms(1)])
  show ?thesis
    using ticker_ok_at_most_one[OF ok] start_facts(2,3)[OF ok f, of now] start_facts(4)[OF assms(1) f]
    by (simp add: run_ops_append)
qed

theorem one_repeating_timer_after_start_witness:
  "ticker_ok minute_timer_state
   \<and> length (countdown_timers (run_ops updateCountdown minute_timer_state
        [Start (at_clock 4 0 0)])) \<le> 1
   \<and> countdownInterval (run_ops updateCountdown minute_timer_state
        ([Start (at_clock 4 0 0)] @ [Start (at_clock 4 0 1)])) = Some 3
   \<and> countdown_timers (run_ops updateCountdown minute_timer_state
        ([Start (at_clock 4 0 0)] @ [Start (at_clock 4 0 1)]))
       = [(3, Interval UpdateCountdown 1000)]
   \<and> timers (run_ops updateCountdown minute_timer_state
        ([Start (at_clock 4 0 0)] @ [Start (at_clock 4 0 1)]))
       = [(1, Interval UpdateDateTime 60000), (3, Interval UpdateCountdown 1000)]
   \<and> events (startCountdown_with updateCountdown minute_timer_state (at_clock 4 0 0))
       = [Tick, SetInterval 2]"
proof -
  let ?s = "run_ops updateCountdown minute_timer_state
              ([Start (at_clock 4 0 0)] @ [Start (at_clock 4 0 1)])"
  have t: "updateCountdown = updateCountdown \<or> updateCountdown = updateCountdown_script" by simp
  from one_repeating_timer_after_start[OF ticker_ok_minute_timer_state t,
      of "[Start (at_clock 4 0 0)]" "at_clock 4 0 1"]
  obtain h where one: "length (countdown_timers (run_ops updateCountdown minute_timer_state
        [Start (at_clock 4 0 0)])) \<le> 1"
    and h: "countdownInterval ?s = Some h" "countdown_timers ?s = [(h, Interval UpdateCountdown 1000)]"
    by blast
  have "h = 3" using h(1) two_starts(1) by simp
  with one h two_starts ticker_ok_minute_timer_state show ?thesis by simp
qed

section \<open>A schedule whose minutes do not parse\<close>

lemma Number_with_suffix: "Number (padStart 2 48 (digits m) @ zone_suffix) = NaN"
proof -
  let ?d = "padStart 2 48 (digits m)"
  obtain c cs where d: "?d = c # cs" using pad2_nonempty[of m] by (cases ?d) auto
  have all: "\<forall>x \<in> set ?d. is_digit x" using pad2_all by blast
  then have c: "48 \<le> c" "c \<le> 57" using d by (simp_all add: is_digit_def)
  have lead: "dropWhile is_ws (?d @ zone_suffix) = ?d @ zone_suffix"
    using c d by (simp add: is_ws_def)
  have rz: "rev zone_suffix = [41, 84, 69, 69, 40, 32]"
    by (simp add: zone_suffix_def str_def)
  have trail: "dropWhile is_ws (rev (?d @ zone_suffix)) = rev (?d @ zone_suffix)"
    by (simp only: rev_append rz) (simp add: is_ws_def)
  have trim: "js_trim (?d @ zone_suffix) = ?d @ zone_suffix"
    by (simp only: js_trim_def lead trail rev_rev_ident)
  have tw: "takeWhile is_digit (?d @ zone_suffix) = ?d"
    using all by (simp add: takeWhile_append2 zone_suffix_def str_def is_digit_def)
  have dw: "dropWhile is_digit (?d @ zone_suffix) = zone_suffix"
    using all by (simp add: dropWhile_append2 zone_suffix_def str_def is_digit_def)
  have ni: "?d @ zone_suffix \<noteq> str ''Infinity''"
    using c d by (simp add: str_def)
  have ud: "unsigned_decimal (?d @ zone_suffix) = NaN"
    using ni pad2_nonempty[of m]
    by (simp add: unsigned_decimal_def tw dw exponent_part_def)
      (simp add: zone_suffix_def str_def exponent_part_def)
  have "Number (?d @ zone_suffix) = unsigned_decimal (?d @ zone_suffix)"
  proof (cases cs)
    case Nil
    with c d show ?thesis
      using trim by (simp add: Number_def zone_suffix_def str_def)
  next
    case (Cons e es)
    then have "e \<in> set ?d" using d by simp
    then have "48 \<le> e" "e \<le> 57" using all by (simp_all add: is_digit_def)
    with c d Cons show ?thesis
      using trim by (simp add: Number_def)
  qed
  with ud show ?thesis by simp
qed

lemma formatTime_zone: "formatTime (time24 h m @ zone_suffix) = Inr (nan_display h)"
proof -
  let ?hs = "padStart 2 48 (digits h)" and ?ms = "padStart 2 48 (digits m) @ zone_suffix"
  have nh: "58 \<notin> set ?hs"
    using pad2_all digit_not_sep by blast
  have nm: "58 \<notin> set ?ms"
    using pad2_all[of 58 m] by (auto simp: is_digit_def zone_suffix_def str_def)
  have sp: "js_split 58 (time24 h m @ zone_suffix) = (?hs, [?ms])"
    using js_split_append[OF nh, of ?ms] js_split_none[OF nm] by (simp add: time24_def)
  have H: "Number ?hs = Fin (of_nat h)"
    using Number_digits[of ?hs] pad2_all pad2_nonempty by (simp add: dec_value_pad2)
  have R: "js_rem (Fin (of_nat h)) (Fin 12) = Fin (of_nat (h mod 12))"
    using js_rem_nat[of 12 h] by simp
  have P: "padStart 2 48 (str ''NaN'') = str ''NaN''"
    by (simp add: padStart_def str_def)
  show ?thesis
    by (simp add: formatTime_def sp second_def H Number_with_suffix R js_ge_def truthy_def
        hours12_def unsigned_toString_nat unsigned_toString_numeral nan_display_def period_of_def
        P del: js_rem.simps)
qed

lemma updatePrayerTimes_zone:
  "updatePrayerTimes st zone_timings = Inr (st\<lparr>prayerTimes := zone_schedule\<rparr>)"
proof -
  have k: "zone_timings (str ''Fajr'') = time24 4 31 @ zone_suffix"
    "zone_timings (str ''Sunrise'') = time24 6 2 @ zone_suffix"
    "zone_timings (str ''Dhuhr'') = time24 12 0 @ zone_suffix"
    "zone_timings (str ''Asr'') = time24 15 30 @ zone_suffix"
    "zone_timings (str ''Maghrib'') = time24 18 1 @ zone_suffix"
    "zone_timings (str ''Isha'') = time24 19 25 @ zone_suffix"
    by (simp_all add: zone_timings_def timings_of_def timingKeys_def prayerOrder_def
        sample_times_def str_def)
  have "formatAll zone_timings timingKeys
        = Inr (zip prayerOrder (map (\<lambda>t. nan_display (fst t)) sample_times))"
    using k by (simp add: timingKeys_def prayerOrder_def formatTime_zone sample_times_def)
  then show ?thesis by (simp add: updatePrayerTimes_def zone_schedule_def)
qed

lemma split_nan_display:
  "js_split 32 (nan_display h) = (digits (hours12 h) @ 58 # str ''NaN'', [period_of h])"
  "js_split 58 (digits (hours12 h) @ 58 # str ''NaN'') = (digits (hours12 h), [str ''NaN''])"
proof -
  let ?a = "digits (hours12 h) @ 58 # str ''NaN''"
  have na: "32 \<notin> set ?a"
    using digits_all[of 32 "hours12 h"] by (auto simp: is_digit_def str_def)
  have np: "js_split 32 (period_of h) = (period_of h, [])"
    by (simp add: PM_def AM_def period_of_def)
  show "js_split 32 (nan_display h) = (?a, [period_of h])"
    using js_split_append[OF na, of "period_of h"] by (simp add: nan_display_def np)
  have nh: "58 \<notin> set (digits (hours12 h))"
    using digits_all[of 58 "hours12 h"] by (auto simp: is_digit_def)
  have nn: "58 \<notin> set (str ''NaN'')" by (simp add: str_def)
  show "js_split 58 ?a = (digits (hours12 h), [str ''NaN''])"
    using js_split_append[OF nh, of "str ''NaN''"] js_split_none[OF nn] by simp
qed

lemma nan_display_nonempty: "nan_display h \<noteq> []"
  by (simp add: nan_display_def)

lemma malformed_nan_display: "malformed (nan_display h)"
  by (simp add: malformed_def split_nan_display second_def Number_nan_fields)

lemma timeRemaining_nan_display: "timeRemaining (nan_display h) now = None"
  by (simp add: timeRemaining_def split_nan_display second_def parseInt_nan_fields parseInt_opt_def
      isNaN_def Let_def)

lemma zone_schedule_entry:
  assumes "i < 6"
  shows "zone_schedule (prayerOrder ! i) = Some (nan_display (fst (sample_times ! i)))"
proof -
  have len: "length sample_times = 6" by (simp add: sample_times_def)
  show ?thesis
    using map_of_zip_nth[of prayerOrder "map (\<lambda>t. nan_display (fst t)) sample_times" i] assms
    by (simp add: zone_schedule_def prayerOrder_length prayerOrder_distinct len)
qed

lemma zone_schedule_next: "nextPrayerName zone_schedule now = str ''fajr''"
proof -
  have "\<forall>j<6. skipped zone_schedule (current_minutes now) (prayerOrder ! j)"
  proof (intro allI impI)
    fix j :: nat assume "j < 6"
    then show "skipped zone_schedule (current_minutes now) (prayerOrder ! j)"
      by (intro unusable_skipped) (simp add: unusable_def zone_schedule_entry malformed_nan_display)
  qed
  from nextPrayerName_default[OF this] show ?thesis by (simp add: prayerOrder_nth)
qed

lemma nan_display_4: "nan_display 4 = str ''4:NaN'' @ [32] @ AM"
  by (simp add: nan_display_def hours12_def digits_small period_of_def str_def)

lemma zone_schedule_fajr: "zone_schedule (str ''fajr'') = Some (nan_display 4)"
  using zone_schedule_entry[of 0] by (simp add: prayerOrder_nth sample_times_def)

lemma tick_on_zone_schedule:
  assumes "nextPrayer st = Some (str ''fajr'')" and "prayerTimes st = zone_schedule"
  shows "updateCountdown st now = (False, st\<lparr>events := events st @ [Tick]\<rparr>)"
    and "updateCountdown_script st now = (False, st\<lparr>events := events st @ [Tick]\<rparr>)"
  using assms
  by (simp_all add: updateCountdown_def updateCountdown_script_def zone_schedule_fajr
      nan_display_nonempty timeRemaining_nan_display)

lemma cleared_frame:
  "nextPrayer (cleared st) = nextPrayer st" "prayerTimes (cleared st) = prayerTimes st"
  "countdown (cleared st) = countdown st"
  by (simp_all add: cleared_def clearInterval_def split: option.splits)

lemma startCountdown_with_countdown:
  "countdown (startCountdown_with tick st now) = countdown (snd (tick (cleared st) now))"
  by (simp add: startCountdown_with_cleared Let_def)

lemma start_on_zone_schedule:
  assumes "nextPrayer st = Some (str ''fajr'')" and "prayerTimes st = zone_schedule"
  shows "countdown (startCountdown st now) = countdown st"
    and "countdown (startCountdown_script st now) = countdown st"
  using assms tick_on_zone_schedule[of "cleared st" now]
  by (simp_all add: startCountdown_def startCountdown_script_def startCountdown_with_countdown
      cleared_frame)

lemma ui_zone_state_fields:
  "nextPrayer ui_zone_state = Some (str ''fajr'')"
  "prayerTimes ui_zone_state = zone_schedule"
  "countdown ui_zone_state = loading_text"
proof -
  let ?s = "(setLoading True st_init)\<lparr>prayerTimes := zone_schedule\<rparr>"
  let ?r = "?s\<lparr>active := highlight (currentPrayerName (str ''fajr'')),
               nextPrayer := Some (str ''fajr'')\<rparr>"
  have u: "ui_zone_state = startCountdown ?r (at_clock 4 0 0)"
    by (simp add: ui_zone_state_def updateNextPrayer_def zone_schedule_next Let_def)
  show "nextPrayer ui_zone_state = Some (str ''fajr'')"
    and "prayerTimes ui_zone_state = zone_schedule"
    by (simp_all add: u startCountdown_frame)
  have "countdown (startCountdown ?r (at_clock 4 0 0)) = countdown ?r"
    by (rule start_on_zone_schedule) simp_all
  then show "countdown ui_zone_state = loading_text"
    by (simp add: u setLoading_def)
qed

lemma script_zone_state_fields:
  "nextPrayer script_zone_state = Some (str ''fajr'')"
  "prayerTimes script_zone_state = zone_schedule"
  "countdown script_zone_state = updating_text"
proof -
  let ?r = "updateNextPrayer_script (st_init\<lparr>prayerTimes := zone_schedule\<rparr>) (at_clock 4 0 0)"
  have n: "nextPrayer ?r = Some (str ''fajr'')"
    by (simp add: updateNextPrayer_script_result zone_schedule_next)
  have p: "prayerTimes ?r = zone_schedule"
    by (simp add: updateNextPrayer_script_def setTimeout_def Let_def)
  have c: "countdown ?r = updating_text"
    by (simp add: updateNextPrayer_script_def setTimeout_def Let_def)
  have "countdown (startCountdown_script ?r (at_clock 4 0 0)) = countdown ?r"
    by (rule start_on_zone_schedule(2)[OF n p])
  then show "countdown script_zone_state = updating_text"
    by (simp add: script_zone_state_def c)
  show "nextPrayer script_zone_state = Some (str ''fajr'')"
    and "prayerTimes script_zone_state = zone_schedule"
    using n p
    by (simp_all add: script_zone_state_def startCountdown_script_def startCountdown_with_cleared
        Let_def updateCountdown_script_frame cleared_frame)
qed

text \<open>
  C2, a defect of the code. A missing entry makes the tick show \<open>--:--:--\<close> and return
  false (lemma \<open>missing_entry_shows_sentinel\<close>). An entry whose minute does not parse
  takes the early return instead: the tick returns false and the countdown keeps the text
  it had. Evaluated on the schedule the service sends with a zone suffix
  (\<open>04:31 (EET)\<close> for fajr, stored as \<open>4:NaN\<close> with the morning marker): every entry is
  passed over, next is fajr by default, and after the resolver and any later tick the
  countdown still shows the loading text (ui module) or the updating text (script), never
  \<open>--:--:--\<close>.
\<close>

theorem unparseable_entry_keeps_old_display:
  "zone_timings (str ''Fajr'') = str ''04:31 (EET)''
   \<and> updatePrayerTimes (setLoading True st_init) zone_timings
       = Inr ((setLoading True st_init)\<lparr>prayerTimes := zone_schedule\<rparr>)
   \<and> updatePrayerTimes st_init zone_timings = Inr (st_init\<lparr>prayerTimes := zone_schedule\<rparr>)
   \<and> zone_schedule (str ''fajr'') = Some (str ''4:NaN'' @ [32] @ AM)
   \<and> nextPrayer ui_zone_state = Some (str ''fajr'')
   \<and> countdown ui_zone_state = loading_text
   \<and> fst (updateCountdown ui_zone_state (at_clock 4 0 1)) = False
   \<and> countdown (snd (updateCountdown ui_zone_state (at_clock 4 0 1))) = loading_text
   \<and> loading_text \<noteq> sentinel
   \<and> nextPrayer script_zone_state = Some (str ''fajr'')
   \<and> countdown script_zone_state = updating_text
   \<and> fst (updateCountdown_script script_zone_state (at_clock 4 0 1)) = False
   \<and> countdown (snd (updateCountdown_script script_zone_state (at_clock 4 0 1))) = updating_text
   \<and> updating_text \<noteq> sentinel"
proof -
  have k: "zone_timings (str ''Fajr'') = str ''04:31 (EET)''"
    by (simp add: zone_timings_def timings_of_def timingKeys_def prayerOrder_def sample_times_def
        zone_suffix_def time24_def padStart_def digits_small digits_two str_def)
  have ne: "loading_text \<noteq> sentinel" "updating_text \<noteq> sentinel"
    by (simp_all add: loading_text_def updating_text_def sentinel_def str_def)
  have e: "zone_schedule (str ''fajr'') = Some (str ''4:NaN'' @ [32] @ AM)"
    using zone_schedule_fajr nan_display_4 by simp
  show ?thesis
    using k ne e ui_zone_state_fields script_zone_state_fields
      tick_on_zone_schedule(1)[OF ui_zone_state_fields(1,2), of "at_clock 4 0 1"]
      tick_on_zone_schedule(2)[OF script_zone_state_fields(1,2), of "at_clock 4 0 1"]
    by (simp add: updatePrayerTimes_zone)
qed

end
